theory Spec2Isabelle
  imports Main
begin

section \<open>PaperRadar: the conference intelligence pipeline\<close>

text \<open>
  A shallow embedding of the decision logic of PaperRadar (Python): the trigger engine
  (\<^verbatim>\<open>ccf_monitor.py\<close>), the storage layer (\<^verbatim>\<open>db.py\<close>), the collector
  (\<^verbatim>\<open>collector.py\<close>), the collaborator client (\<^verbatim>\<open>llm_mcp.py\<close>), the code
  verifier (\<^verbatim>\<open>code_verifier.py\<close>) and the summarization loop of
  \<^verbatim>\<open>workflow.py\<close>.

  Conventions. A Python exception is a value of \<open>py_error\<close> and a function that can raise
  returns \<open>py_error + 'a\<close>. Everything the program reads from outside (the clock, the
  HTTP responses, the collaborator's answers) and every library function whose code is not
  part of the repository (\<^verbatim>\<open>str.upper\<close>, \<^verbatim>\<open>str.lower\<close>,
  \<^verbatim>\<open>datetime.fromisoformat\<close>, \<^verbatim>\<open>json.loads\<close>) is an explicit parameter,
  so every theorem holds for whatever these return.
\<close>

subsection \<open>Python values\<close>

datatype py_error =
    OverflowError | TypeError | AttributeError | ValueError | IndexError | RequestException
  | SqliteError

text \<open>
  What \<^verbatim>\<open>json.loads\<close> returns. \<open>JNull\<close> is Python's \<^verbatim>\<open>None\<close>; an object keeps
  its members in the order of the text, and a lookup takes the last member of a repeated key,
  as the dict built by \<^verbatim>\<open>json.loads\<close> does. A number that is not an integer behaves, for
  every operation used here (truth value, type tests, iteration), as a non-zero \<open>JNum\<close>.
\<close>

datatype json =
    JNull | JBool bool | JNum int | JStr string | JArr "json list" | JObj "(string \<times> json) list"

fun truthy :: "json \<Rightarrow> bool" where
  "truthy JNull = False"
| "truthy (JBool b) = b"
| "truthy (JNum n) = (n \<noteq> 0)"
| "truthy (JStr s) = (s \<noteq> [])"
| "truthy (JArr xs) = (xs \<noteq> [])"
| "truthy (JObj kvs) = (kvs \<noteq> [])"

definition dict_get :: "(string \<times> json) list \<Rightarrow> string \<Rightarrow> json option" where
  "dict_get kvs k = map_of (rev kvs) k"

subsection \<open>The collaborator client: \<^verbatim>\<open>LLMClient._chat_json\<close>\<close>

text \<open>
  \<^verbatim>\<open>
  def _chat_json(self, messages, force_object=True):
      for _ in range(2):
          try:
              response_format = {"type": "json_object"} if force_object else None
              content = self._chat(messages, response_format=response_format)
              return json.loads(content)
          except Exception as exc:
              logger.warning(...)
      return None
  \<close>
  The collaborator is a sequence of outcomes: \<open>chat k\<close> is what the \<open>k\<close>-th call of
  \<^verbatim>\<open>_chat\<close> made by the client does, either raising or returning the message content
  (which the API may leave \<^verbatim>\<open>None\<close>). \<open>loads\<close> is \<^verbatim>\<open>json.loads\<close> on a string.
  The model returns the value together with the number of calls made so far.
\<close>

type_synonym chat = "nat \<Rightarrow> py_error + string option"

definition json_loads :: "(string \<Rightarrow> py_error + json) \<Rightarrow> string option \<Rightarrow> py_error + json" where
  "json_loads loads content = (case content of None \<Rightarrow> Inl TypeError | Some s \<Rightarrow> loads s)"

definition attempt :: "(string \<Rightarrow> py_error + json) \<Rightarrow> chat \<Rightarrow> nat \<Rightarrow> py_error + json" where
  "attempt loads chat k = (case chat k of Inl e \<Rightarrow> Inl e | Inr content \<Rightarrow> json_loads loads content)"

fun chat_json_loop :: "(string \<Rightarrow> py_error + json) \<Rightarrow> chat \<Rightarrow> nat \<Rightarrow> nat \<Rightarrow> json \<times> nat" where
  "chat_json_loop loads chat k 0 = (JNull, k)"
| "chat_json_loop loads chat k (Suc n) =
     (case attempt loads chat k of
        Inr v \<Rightarrow> (v, Suc k)
      | Inl e \<Rightarrow> chat_json_loop loads chat (Suc k) n)"

definition chat_json :: "(string \<Rightarrow> py_error + json) \<Rightarrow> chat \<Rightarrow> nat \<Rightarrow> json \<times> nat" where
  "chat_json loads chat k = chat_json_loop loads chat k 2"

text \<open>A response that is returned but does not parse.\<close>

definition parse_fails :: "(string \<Rightarrow> py_error + json) \<Rightarrow> chat \<Rightarrow> nat \<Rightarrow> bool" where
  "parse_fails loads chat k =
     (case chat k of Inl e \<Rightarrow> False | Inr content \<Rightarrow> (case json_loads loads content of Inl e \<Rightarrow> True | Inr v \<Rightarrow> False))"

lemma parse_fails_attempt: "parse_fails loads chat k \<Longrightarrow> \<exists>e. attempt loads chat k = Inl e"
  by (auto simp: parse_fails_def attempt_def split: sum.splits)

text \<open>
  Claim C9. When the first response of a JSON-mode call does not parse, exactly one more
  call is made; when that second response does not parse either the result is \<^verbatim>\<open>None\<close>,
  and when it parses the result is the parsed value. The model has no error value: the
  \<^verbatim>\<open>except Exception\<close> of the loop body catches whatever an attempt raises.
\<close>

theorem chat_json_retries_once:
  assumes "parse_fails loads chat k"
  shows "snd (chat_json loads chat k) = k + 2
       \<and> (parse_fails loads chat (Suc k) \<longrightarrow> fst (chat_json loads chat k) = JNull)
       \<and> (\<forall>v. attempt loads chat (Suc k) = Inr v \<longrightarrow> fst (chat_json loads chat k) = v)"
proof -
  obtain e where e: "attempt loads chat k = Inl e"
    using parse_fails_attempt [OF assms] by blast
  have unfold: "chat_json loads chat k = chat_json_loop loads chat (Suc k) (Suc 0)"
    by (simp add: chat_json_def numeral_2_eq_2 e)
  show ?thesis
  proof (cases "attempt loads chat (Suc k)")
    case (Inl e')
    then show ?thesis by (simp add: unfold)
  next
    case (Inr v)
    then have "\<not> parse_fails loads chat (Suc k)"
      by (auto simp: parse_fails_def attempt_def split: sum.splits)
    with Inr show ?thesis by (simp add: unfold)
  qed
qed

text \<open>
  A collaborator that answers \<^verbatim>\<open>not json\<close> twice, under a parser that accepts only
  \<^verbatim>\<open>[]\<close>: two calls, result \<^verbatim>\<open>None\<close>.
\<close>

definition only_empty_array :: "string \<Rightarrow> py_error + json" where
  "only_empty_array s = (if s = ''[]'' then Inr (JArr []) else Inl ValueError)"

definition always_garbage :: chat where
  "always_garbage k = Inr (Some ''not json'')"

theorem chat_json_retries_once_witness:
  "parse_fails only_empty_array always_garbage 0
   \<and> chat_json only_empty_array always_garbage 0 = (JNull, 2)"
proof -
  have pf: "\<And>k. parse_fails only_empty_array always_garbage k"
    by (simp add: parse_fails_def always_garbage_def json_loads_def only_empty_array_def)
  from chat_json_retries_once [OF pf [of 0]] pf [of "Suc 0"]
  have "snd (chat_json only_empty_array always_garbage 0) = 2"
    and "fst (chat_json only_empty_array always_garbage 0) = JNull"
    by simp_all
  then have "chat_json only_empty_array always_garbage 0 = (JNull, 2)"
    by (simp add: prod_eq_iff)
  with pf [of 0] show ?thesis by simp
qed

subsection \<open>Dates and times\<close>

text \<open>
  A \<^verbatim>\<open>datetime\<close>: the proleptic Gregorian ordinal of its date (1 is 0001-01-01, as
  \<^verbatim>\<open>date.toordinal\<close>), the microseconds since midnight, and the UTC offset in
  microseconds of an aware value (\<open>None\<close> for a naive one). \<^verbatim>\<open>.date()\<close> is
  \<open>dt_ordinal\<close>.
\<close>

record pydatetime =
  dt_ordinal :: int
  dt_usec :: int
  dt_offset :: "int option"

definition max_ordinal :: int where
  "max_ordinal = 3652059"

definition max_delta_days :: int where
  "max_delta_days = 999999999"

text \<open>
  \<^verbatim>\<open>d + timedelta(days=n)\<close> on a \<^verbatim>\<open>date\<close>: \<^verbatim>\<open>timedelta\<close> raises OverflowError
  beyond 999999999 days, and the sum raises it outside 0001-01-01 .. 9999-12-31.
\<close>

definition date_add_days :: "int \<Rightarrow> int \<Rightarrow> py_error + int" where
  "date_add_days d n =
     (if abs n > max_delta_days then Inl OverflowError
      else if 1 \<le> d + n \<and> d + n \<le> max_ordinal then Inr (d + n)
      else Inl OverflowError)"

text \<open>\<^verbatim>\<open>s.replace("Z", "+00:00")\<close>: every \<^verbatim>\<open>Z\<close> of the string is replaced.\<close>

definition replace_Z :: "string \<Rightarrow> string" where
  "replace_Z s = concat (map (\<lambda>c. if c = CHR ''Z'' then ''+00:00'' else [c]) s)"

subsection \<open>Storage: \<^verbatim>\<open>db.py\<close>\<close>

text \<open>
  The tables the modelled functions touch. \<^verbatim>\<open>conferences\<close> has
  \<^verbatim>\<open>UNIQUE(name, year)\<close> and is a map from that key to the other columns;
  \<^verbatim>\<open>papers\<close>, \<^verbatim>\<open>summaries\<close> and \<^verbatim>\<open>clusters\<close> are lists of rows in
  insertion order. Every function of \<^verbatim>\<open>db.py\<close> opens a connection, runs its
  statements and commits, so it is a function from the stored state to the stored state,
  or to an exception when a statement can fail.
  The \<^verbatim>\<open>created_at\<close> columns and the columns of \<^verbatim>\<open>papers\<close> that no modelled
  query reads are left out.
\<close>

record conference_fields =
  cf_deadline :: "string option"
  cf_triggered_at :: "pydatetime option"

record paper_row =
  p_id :: int
  p_conference :: string
  p_year :: int
  p_title :: string
  p_abstract :: "string option"

record summary_row =
  s_paper_id :: int
  s_tldr_en :: json
  s_tldr_zh :: json

record cluster_row =
  cl_id :: int
  cl_conference :: string
  cl_year :: int
  cl_label :: string
  cl_paper_id :: int

record db =
  conferences :: "(string \<times> int) \<rightharpoonup> conference_fields"
  papers :: "paper_row list"
  summaries :: "summary_row list"
  clusters :: "cluster_row list"
  clusters_seq :: int

text \<open>
  \<^verbatim>\<open>
  def upsert_conference(db_path, name, year, deadline=None):
      INSERT OR IGNORE INTO conferences (name, year, deadline) VALUES (?, ?, ?)
  \<close>
\<close>

definition upsert_conference :: "db \<Rightarrow> string \<Rightarrow> int \<Rightarrow> string option \<Rightarrow> db" where
  "upsert_conference d name year deadline =
     (case conferences d (name, year) of
        Some row \<Rightarrow> d
      | None \<Rightarrow> d\<lparr>conferences := (conferences d)((name, year) \<mapsto>
                  \<lparr>cf_deadline = deadline, cf_triggered_at = None\<rparr>)\<rparr>)"

text \<open>
  \<^verbatim>\<open>
  def mark_conference_triggered(db_path, name, year):
      UPDATE conferences SET triggered_at=? WHERE name=? AND year=?
          (datetime.utcnow().isoformat(), name, year)
  \<close>
  The clock reading is the argument \<open>stamp\<close>.
\<close>

definition mark_conference_triggered :: "db \<Rightarrow> pydatetime \<Rightarrow> string \<Rightarrow> int \<Rightarrow> db" where
  "mark_conference_triggered d stamp name year =
     (case conferences d (name, year) of
        None \<Rightarrow> d
      | Some row \<Rightarrow> d\<lparr>conferences := (conferences d)((name, year) \<mapsto>
                  row\<lparr>cf_triggered_at := Some stamp\<rparr>)\<rparr>)"

text \<open>
  \<^verbatim>\<open>
  @contextmanager
  def get_conn(db_path):
      conn = sqlite3.connect(db_path)
      try:
          yield conn
          conn.commit()
      finally:
          conn.close()
  \<close>
  The statements of one call form one transaction, which is committed only when none of
  them raised; otherwise the connection is closed, the transaction is rolled back and the
  exception leaves the function. A function one of whose statements can raise returns
  \<open>Inl\<close> the exception or \<open>Inr\<close> the committed store; \<open>committed\<close> is the stored state
  after the call.
\<close>

definition committed :: "db \<Rightarrow> py_error + db \<Rightarrow> db" where
  "committed d r = (case r of Inl e \<Rightarrow> d | Inr d' \<Rightarrow> d')"

text \<open>
  Binding a parameter. sqlite3 binds \<^verbatim>\<open>None\<close>, integers (also \<^verbatim>\<open>bool\<close>) and
  strings; an integer outside the signed 64-bit range raises \<^verbatim>\<open>OverflowError\<close>, a
  list or a dict raises an error of sqlite3.
\<close>

definition sqlite_int :: "int \<Rightarrow> bool" where
  "sqlite_int n = (- (2 ^ 63) \<le> n \<and> n < 2 ^ 63)"

definition bind_param :: "json \<Rightarrow> py_error option" where
  "bind_param v =
     (case v of
        JNum n \<Rightarrow> if sqlite_int n then None else Some OverflowError
      | JArr xs \<Rightarrow> Some SqliteError
      | JObj kvs \<Rightarrow> Some SqliteError
      | _ \<Rightarrow> None)"


text \<open>
  The text that a column of \<^verbatim>\<open>TEXT\<close> affinity stores for a bound integer: its decimal
  form.
\<close>

definition digit_char :: "nat \<Rightarrow> char" where
  "digit_char n = ''0123456789'' ! n"

function decimal_nat :: "nat \<Rightarrow> string" where
  "decimal_nat n =
     (if n < 10 then [digit_char n]
      else decimal_nat (n div 10) @ [digit_char (n mod 10)])"
  by pat_completeness auto
termination
  by (relation "measure id") auto

declare decimal_nat.simps [simp del]

definition decimal :: "int \<Rightarrow> string" where
  "decimal n = (if n < 0 then CHR ''-'' # decimal_nat (nat (- n)) else decimal_nat (nat n))"

text \<open>
  \<^verbatim>\<open>
  def save_clusters(db_path, conference, year, assignments):
      with get_conn(db_path) as conn:
          conn.execute("DELETE FROM clusters WHERE conference=? AND year=?", (conference, year))
          for paper_id, label in assignments:
              conn.execute(
                  "INSERT INTO clusters (conference, year, label, paper_id) VALUES (?, ?, ?, ?)",
                  (conference, year, label, paper_id),
              )
  \<close>
  The assignments are what \<^verbatim>\<open>cluster_papers\<close> returns,
  \<^verbatim>\<open>(int(item.get("id")), item.get("label", ...))\<close>: an integer and whatever JSON value
  the collaborator wrote as the label. \<^verbatim>\<open>id\<close> is \<^verbatim>\<open>AUTOINCREMENT\<close>: one more than
  the largest id the table ever held, kept in \<open>clusters_seq\<close>.

  One \<^verbatim>\<open>INSERT\<close> binds the label and then the paper id, and then runs against
  \<^verbatim>\<open>label TEXT NOT NULL\<close>: a NULL label violates the constraint, a number or a boolean
  is stored in its text form. \<open>cluster_values\<close> is the (paper id, label) that the row holds,
  or the exception.
\<close>

definition in_scope :: "string \<Rightarrow> int \<Rightarrow> cluster_row \<Rightarrow> bool" where
  "in_scope conference year r = (cl_conference r = conference \<and> cl_year r = year)"

definition cluster_values :: "int \<times> json \<Rightarrow> py_error + (int \<times> string)" where
  "cluster_values a =
     (case bind_param (snd a) of
        Some e \<Rightarrow> Inl e
      | None \<Rightarrow>
          if \<not> sqlite_int (fst a) then Inl OverflowError
          else
            (case snd a of
               JStr s \<Rightarrow> Inr (fst a, s)
             | JNum n \<Rightarrow> Inr (fst a, decimal n)
             | JBool b \<Rightarrow> Inr (fst a, if b then ''1'' else ''0'')
             | _ \<Rightarrow> Inl SqliteError))"

definition insert_cluster :: "string \<Rightarrow> int \<Rightarrow> int \<times> string \<Rightarrow> db \<Rightarrow> db" where
  "insert_cluster conference year a d =
     d\<lparr>clusters := clusters d @
          [\<lparr>cl_id = clusters_seq d + 1, cl_conference = conference, cl_year = year,
            cl_label = snd a, cl_paper_id = fst a\<rparr>],
       clusters_seq := clusters_seq d + 1\<rparr>"

fun insert_clusters :: "string \<Rightarrow> int \<Rightarrow> (int \<times> json) list \<Rightarrow> db \<Rightarrow> py_error + db" where
  "insert_clusters conference year [] d = Inr d"
| "insert_clusters conference year (a # as) d =
     (case cluster_values a of
        Inl e \<Rightarrow> Inl e
      | Inr v \<Rightarrow> insert_clusters conference year as (insert_cluster conference year v d))"

definition save_clusters :: "db \<Rightarrow> string \<Rightarrow> int \<Rightarrow> (int \<times> json) list \<Rightarrow> py_error + db" where
  "save_clusters d conference year assignments =
     (if \<not> sqlite_int year then Inl OverflowError
      else insert_clusters conference year assignments
             (d\<lparr>clusters := filter (\<lambda>r. \<not> in_scope conference year r) (clusters d)\<rparr>))"

text \<open>The stored assignments of one (conference, year), as (paper id, label) in row order.\<close>

definition stored_assignments :: "db \<Rightarrow> string \<Rightarrow> int \<Rightarrow> (int \<times> string) list" where
  "stored_assignments d conference year =
     map (\<lambda>r. (cl_paper_id r, cl_label r)) (filter (in_scope conference year) (clusters d))"

text \<open>An assignment whose \<^verbatim>\<open>INSERT\<close> succeeds.\<close>

definition insertable :: "int \<times> json \<Rightarrow> bool" where
  "insertable a = (case cluster_values a of Inl e \<Rightarrow> False | Inr v \<Rightarrow> True)"

lemma filter_scope_fold_insert:
  "filter (in_scope c' y') (clusters (fold (insert_cluster c y) as d)) =
     filter (in_scope c' y') (clusters d) @
     (if c' = c \<and> y' = y
      then map (\<lambda>i. \<lparr>cl_id = clusters_seq d + 1 + int i, cl_conference = c, cl_year = y,
                      cl_label = snd (as ! i), cl_paper_id = fst (as ! i)\<rparr>) [0..<length as]
      else [])"
proof (induction as arbitrary: d)
  case Nil
  then show ?case by simp
next
  case (Cons a as)
  have shift: "map (\<lambda>i. \<lparr>cl_id = clusters_seq d + 1 + int i, cl_conference = c, cl_year = y,
                      cl_label = snd ((a # as) ! i), cl_paper_id = fst ((a # as) ! i)\<rparr>)
                 [0..<length (a # as)] =
               \<lparr>cl_id = clusters_seq d + 1, cl_conference = c, cl_year = y,
                 cl_label = snd a, cl_paper_id = fst a\<rparr> #
               map (\<lambda>i. \<lparr>cl_id = clusters_seq d + 1 + 1 + int i, cl_conference = c, cl_year = y,
                      cl_label = snd (as ! i), cl_paper_id = fst (as ! i)\<rparr>) [0..<length as]"
    by (simp add: upt_rec [of 0 "Suc (length as)"] map_Suc_upt [symmetric] del: upt_Suc)
  show ?case
    unfolding fold_simps Cons.IH shift
    by (simp add: insert_cluster_def in_scope_def [abs_def])
qed

lemma stored_assignments_fold_insert:
  "stored_assignments (fold (insert_cluster c y) as d) c y = stored_assignments d c y @ as"
  unfolding stored_assignments_def filter_scope_fold_insert
  by (simp add: o_def map_nth)

lemma insert_clusters_result:
  "(insert_clusters c y as d = Inr d') =
     (\<exists>vs. map cluster_values as = map Inr vs \<and> d' = fold (insert_cluster c y) vs d)"
proof (induction as arbitrary: d)
  case Nil
  then show ?case by auto
next
  case (Cons a as)
  show ?case
  proof (cases "cluster_values a")
    case (Inl e)
    then show ?thesis by (auto simp: Cons_eq_map_conv)
  next
    case (Inr v)
    show ?thesis
    proof
      assume "insert_clusters c y (a # as) d = Inr d'"
      with Inr obtain vs where "map cluster_values as = map Inr vs"
        and "d' = fold (insert_cluster c y) vs (insert_cluster c y v d)"
        by (auto simp: Cons.IH)
      with Inr have "map cluster_values (a # as) = map Inr (v # vs)
                     \<and> d' = fold (insert_cluster c y) (v # vs) d"
        by simp
      then show "\<exists>vs. map cluster_values (a # as) = map Inr vs
                     \<and> d' = fold (insert_cluster c y) vs d"
        by blast
    next
      assume "\<exists>vs. map cluster_values (a # as) = map Inr vs
                     \<and> d' = fold (insert_cluster c y) vs d"
      then obtain vs where m: "map cluster_values (a # as) = map Inr vs"
        and d': "d' = fold (insert_cluster c y) vs d"
        by blast
      from m Inr obtain vs' where vs: "vs = v # vs'" and m': "map cluster_values as = map Inr vs'"
        by (auto simp: Cons_eq_map_conv)
      from d' vs have "d' = fold (insert_cluster c y) vs' (insert_cluster c y v d)" by simp
      with m' have "insert_clusters c y as (insert_cluster c y v d) = Inr d'"
        unfolding Cons.IH by blast
      with Inr show "insert_clusters c y (a # as) d = Inr d'" by simp
    qed
  qed
qed

lemma insertable_values:
  "list_all insertable as \<Longrightarrow> \<exists>vs. map cluster_values as = map Inr vs"
proof (induction as)
  case Nil
  then show ?case by simp
next
  case (Cons a as)
  then obtain vs where vs: "map cluster_values as = map Inr vs" by auto
  from Cons.prems obtain v where "cluster_values a = Inr v"
    by (auto simp: insertable_def split: sum.splits)
  with vs have "map cluster_values (a # as) = map Inr (v # vs)" by simp
  then show ?case by blast
qed

lemma insert_clusters_raises:
  "\<not> list_all insertable as \<Longrightarrow> \<exists>e. insert_clusters c y as d = Inl e"
  by (induction as arbitrary: d) (auto simp: insertable_def split: sum.splits)

lemma text_labels_stored:
  "map Inr vs = map cluster_values (map (\<lambda>t. (fst t, JStr (snd t))) ts) \<Longrightarrow> vs = ts"
proof (induction ts arbitrary: vs)
  case Nil
  then show ?case by simp
next
  case (Cons t ts)
  then obtain v vs' where vs: "vs = v # vs'"
    and v: "Inr v = cluster_values (fst t, JStr (snd t))"
    and rest: "map Inr vs' = map cluster_values (map (\<lambda>t. (fst t, JStr (snd t))) ts)"
    by (auto simp: map_eq_Cons_conv)
  from v have "v = t"
    by (auto simp: cluster_values_def bind_param_def split: if_splits)
  with Cons.IH [OF rest] vs show ?case by simp
qed

lemma save_clusters_success:
  assumes "sqlite_int y" and "list_all insertable as"
  shows "\<exists>d'. save_clusters d c y as = Inr d'
          \<and> map Inr (stored_assignments d' c y) = map cluster_values as
          \<and> (\<forall>c' y'. (c', y') \<noteq> (c, y) \<longrightarrow>
                filter (in_scope c' y') (clusters d') = filter (in_scope c' y') (clusters d))"
proof -
  let ?d0 = "d\<lparr>clusters := filter (\<lambda>r. \<not> in_scope c y r) (clusters d)\<rparr>"
  from insertable_values [OF assms(2)] obtain vs where
    vs: "map cluster_values as = map Inr vs" by blast
  let ?d' = "fold (insert_cluster c y) vs ?d0"
  have run: "save_clusters d c y as = Inr ?d'"
    using assms(1) vs by (auto simp: save_clusters_def insert_clusters_result)
  have own: "stored_assignments ?d' c y = vs"
    by (simp add: stored_assignments_fold_insert) (simp add: stored_assignments_def)
  have other: "filter (in_scope c' y') (clusters ?d') = filter (in_scope c' y') (clusters d)"
    if "(c', y') \<noteq> (c, y)" for c' y'
  proof -
    have "filter (in_scope c' y') (filter (\<lambda>r. \<not> in_scope c y r) (clusters d)) =
          filter (in_scope c' y') (clusters d)"
      using that by (auto simp: in_scope_def intro: filter_cong)
    with that show ?thesis
      by (auto simp: filter_scope_fold_insert)
  qed
  from run own other vs show ?thesis by auto
qed

lemma save_clusters_failure:
  assumes "\<not> (sqlite_int y \<and> list_all insertable as)"
  shows "\<exists>e. save_clusters d c y as = Inl e"
  using assms insert_clusters_raises [of as c y]
  by (auto simp: save_clusters_def)


text \<open>
  Claim C7, as amended. When every statement of the call succeeds (the year and every
  paper id are 64-bit integers, every label is a text, a number or a boolean),
  \<^verbatim>\<open>save_clusters\<close> returns and the stored assignments of its (conference, year) are
  exactly the values of the given assignments, in their order (for labels that are texts:
  the given list itself), whatever was stored before, also when that was left by an earlier
  call for the same (conference, year); the rows of every other (conference, year) are
  the rows that were there. When a statement fails, the call raises and the store is as it
  was before the call.
\<close>

theorem save_clusters_replaces:
  "(sqlite_int y \<and> list_all insertable as \<longrightarrow>
      (\<exists>d'. save_clusters d c y as = Inr d'
         \<and> map Inr (stored_assignments d' c y) = map cluster_values as
         \<and> (\<forall>ts. as = map (\<lambda>t. (fst t, JStr (snd t))) ts \<longrightarrow> stored_assignments d' c y = ts)
         \<and> (\<forall>c' y'. (c', y') \<noteq> (c, y) \<longrightarrow>
               filter (in_scope c' y') (clusters d') = filter (in_scope c' y') (clusters d)))
      \<and> (\<forall>as0. \<exists>d''. save_clusters (committed d (save_clusters d c y as0)) c y as = Inr d''
             \<and> map Inr (stored_assignments d'' c y) = map cluster_values as))
   \<and> (\<not> (sqlite_int y \<and> list_all insertable as) \<longrightarrow>
        (\<exists>e. save_clusters d c y as = Inl e)
        \<and> stored_assignments (committed d (save_clusters d c y as)) c y = stored_assignments d c y
        \<and> committed d (save_clusters d c y as) = d)"
proof (intro conjI impI)
  assume ok: "sqlite_int y \<and> list_all insertable as"
  from save_clusters_success [of y as d c] ok obtain d' where
    run: "save_clusters d c y as = Inr d'"
    and own: "map Inr (stored_assignments d' c y) = map cluster_values as"
    and other: "\<forall>c' y'. (c', y') \<noteq> (c, y) \<longrightarrow>
               filter (in_scope c' y') (clusters d') = filter (in_scope c' y') (clusters d)"
    by blast
  have texts: "\<forall>ts. as = map (\<lambda>t. (fst t, JStr (snd t))) ts \<longrightarrow> stored_assignments d' c y = ts"
    using own by (auto dest: text_labels_stored)
  from run own texts other
  show "\<exists>d'. save_clusters d c y as = Inr d'
         \<and> map Inr (stored_assignments d' c y) = map cluster_values as
         \<and> (\<forall>ts. as = map (\<lambda>t. (fst t, JStr (snd t))) ts \<longrightarrow> stored_assignments d' c y = ts)
         \<and> (\<forall>c' y'. (c', y') \<noteq> (c, y) \<longrightarrow>
               filter (in_scope c' y') (clusters d') = filter (in_scope c' y') (clusters d))"
    by blast
  show "\<forall>as0. \<exists>d''. save_clusters (committed d (save_clusters d c y as0)) c y as = Inr d''
             \<and> map Inr (stored_assignments d'' c y) = map cluster_values as"
  proof
    fix as0
    from save_clusters_success [of y as "committed d (save_clusters d c y as0)" c] ok
    show "\<exists>d''. save_clusters (committed d (save_clusters d c y as0)) c y as = Inr d''
             \<and> map Inr (stored_assignments d'' c y) = map cluster_values as"
      by blast
  qed
next
  assume bad: "\<not> (sqlite_int y \<and> list_all insertable as)"
  from save_clusters_failure [OF bad, of d c] obtain e where e: "save_clusters d c y as = Inl e"
    by blast
  then show "\<exists>e. save_clusters d c y as = Inl e" by blast
  from e show "committed d (save_clusters d c y as) = d" by (simp add: committed_def)
  then show "stored_assignments (committed d (save_clusters d c y as)) c y = stored_assignments d c y"
    by simp
qed

text \<open>
  A store holding one ICML 2024 and one NeurIPS 2024 assignment; ICML 2024 is re-clustered
  with two text labels.
\<close>

definition clustered_db :: db where
  "clustered_db =
     \<lparr>conferences = Map.empty, papers = [], summaries = [],
      clusters =
        [\<lparr>cl_id = 1, cl_conference = ''ICML'', cl_year = 2024, cl_label = ''vision'', cl_paper_id = 1\<rparr>,
         \<lparr>cl_id = 2, cl_conference = ''NeurIPS'', cl_year = 2024, cl_label = ''theory'', cl_paper_id = 9\<rparr>],
      clusters_seq = 2\<rparr>"

definition second_run :: "(int \<times> json) list" where
  "second_run = [(1, JStr ''agents''), (2, JStr ''robotics'')]"

theorem save_clusters_replaces_witness:
  "sqlite_int 2024 \<and> list_all insertable second_run
   \<and> stored_assignments clustered_db ''ICML'' 2024 = [(1, ''vision'')]
   \<and> (\<exists>d'. save_clusters clustered_db ''ICML'' 2024 second_run = Inr d'
          \<and> stored_assignments d' ''ICML'' 2024 = [(1, ''agents''), (2, ''robotics'')]
          \<and> filter (in_scope ''NeurIPS'' 2024) (clusters d') =
              [\<lparr>cl_id = 2, cl_conference = ''NeurIPS'', cl_year = 2024, cl_label = ''theory'',
                cl_paper_id = 9\<rparr>])"
proof -
  have y: "sqlite_int 2024" by (simp add: sqlite_int_def)
  have ins: "list_all insertable second_run"
    by (simp add: second_run_def insertable_def cluster_values_def bind_param_def sqlite_int_def)
  have ne: "(''NeurIPS'', 2024) \<noteq> (''ICML'', 2024 :: int)" by simp
  have before: "filter (in_scope ''NeurIPS'' 2024) (clusters clustered_db) =
        [\<lparr>cl_id = 2, cl_conference = ''NeurIPS'', cl_year = 2024, cl_label = ''theory'', cl_paper_id = 9\<rparr>]"
    by (simp add: clustered_db_def in_scope_def)
  have old: "stored_assignments clustered_db ''ICML'' 2024 = [(1, ''vision'')]"
    by (simp add: clustered_db_def stored_assignments_def in_scope_def)
  have texts: "second_run = map (\<lambda>t. (fst t, JStr (snd t))) [(1, ''agents''), (2, ''robotics'')]"
    by (simp add: second_run_def)
  from y ins have ok: "sqlite_int 2024 \<and> list_all insertable second_run" by simp
  from save_clusters_replaces [of 2024 second_run clustered_db "''ICML''",
         THEN conjunct1, THEN mp, OF ok, THEN conjunct1]
  obtain d' where run: "save_clusters clustered_db ''ICML'' 2024 second_run = Inr d'"
    and own: "\<forall>ts. second_run = map (\<lambda>t. (fst t, JStr (snd t))) ts \<longrightarrow>
                stored_assignments d' ''ICML'' 2024 = ts"
    and other: "\<forall>c' y'. (c', y') \<noteq> (''ICML'', 2024) \<longrightarrow>
               filter (in_scope c' y') (clusters d') = filter (in_scope c' y') (clusters clustered_db)"
    by blast
  have own': "stored_assignments d' ''ICML'' 2024 = [(1, ''agents''), (2, ''robotics'')]"
    using own [rule_format, OF texts] .
  have "filter (in_scope ''NeurIPS'' 2024) (clusters d') =
        filter (in_scope ''NeurIPS'' 2024) (clusters clustered_db)"
    using other [rule_format, OF ne] .
  then have other': "filter (in_scope ''NeurIPS'' 2024) (clusters d') =
        [\<lparr>cl_id = 2, cl_conference = ''NeurIPS'', cl_year = 2024, cl_label = ''theory'',
          cl_paper_id = 9\<rparr>]"
    unfolding before .
  from run own' other' have ex:
    "\<exists>d'. save_clusters clustered_db ''ICML'' 2024 second_run = Inr d'
          \<and> stored_assignments d' ''ICML'' 2024 = [(1, ''agents''), (2, ''robotics'')]
          \<and> filter (in_scope ''NeurIPS'' 2024) (clusters d') =
              [\<lparr>cl_id = 2, cl_conference = ''NeurIPS'', cl_year = 2024, cl_label = ''theory'',
                cl_paper_id = 9\<rparr>]"
    by (intro exI [of _ d'] conjI)
  from y ins old ex show ?thesis by (intro conjI)
qed

text \<open>
  The claim as stated fails. The collaborator writes \<^verbatim>\<open>null\<close> as the label of the
  second paper: the second \<^verbatim>\<open>INSERT\<close> violates \<^verbatim>\<open>label TEXT NOT NULL\<close>, the call
  raises, the \<^verbatim>\<open>DELETE\<close> and the first \<^verbatim>\<open>INSERT\<close> are rolled back, and the stored
  assignments of ICML 2024 are those of the earlier run, not one of this run.
\<close>

definition null_label_run :: "(int \<times> json) list" where
  "null_label_run = [(1, JStr ''agents''), (2, JNull)]"

theorem save_clusters_null_label_keeps_old:
  "save_clusters clustered_db ''ICML'' 2024 null_label_run = Inl SqliteError
   \<and> stored_assignments (committed clustered_db (save_clusters clustered_db ''ICML'' 2024 null_label_run))
        ''ICML'' 2024 = [(1, ''vision'')]"
  by (simp add: save_clusters_def null_label_run_def cluster_values_def bind_param_def
        sqlite_int_def committed_def stored_assignments_def in_scope_def clustered_db_def)

text \<open>
  A paper id beyond 64 bits fails in the same way, and a numeric label is stored as its text.
\<close>

lemma save_clusters_overflow:
  "save_clusters clustered_db ''ICML'' 2024 [(2 ^ 63, JStr ''agents'')] = Inl OverflowError"
  by (simp add: save_clusters_def cluster_values_def bind_param_def sqlite_int_def)

lemma cluster_values_number: "cluster_values (3, JNum 42) = Inr (3, ''42'')"
  by (simp add: cluster_values_def bind_param_def sqlite_int_def decimal_def
        decimal_nat.simps [of 42] decimal_nat.simps [of 4] digit_char_def)

subsection \<open>The trigger engine: \<^verbatim>\<open>ccf_monitor.select_triggered_conferences\<close>\<close>

text \<open>
  The fields of \<^verbatim>\<open>ConferenceConfig\<close> that the modelled functions read.
\<close>

record conference_config =
  cc_name :: string
  cc_year :: int
  cc_source_priority :: "string list option"

text \<open>
  The library and the clock: \<^verbatim>\<open>str.upper\<close>, \<^verbatim>\<open>str.lower\<close>,
  \<^verbatim>\<open>datetime.fromisoformat\<close> (\<open>None\<close> when it raises) and \<^verbatim>\<open>datetime.utcnow\<close>,
  whose \<open>k\<close>-th reading is \<open>utcnow py k\<close>.
\<close>

record pylib =
  str_upper :: "string \<Rightarrow> string"
  str_lower :: "string \<Rightarrow> string"
  fromisoformat :: "string \<Rightarrow> pydatetime option"
  utcnow :: "nat \<Rightarrow> pydatetime"

text \<open>
  \<^verbatim>\<open>
  def select_triggered_conferences(db_path, config_confs, deadlines, lag_days):
      triggered = []
      now = datetime.utcnow()
      for conf in config_confs:
          acronym = conf.name.upper()
          deadline_str = deadlines.get(acronym)
          upsert_conference(db_path, conf.name, conf.year, deadline=deadline_str)
          if not deadline_str:
              continue
          try:
              deadline_date = datetime.fromisoformat(deadline_str.replace("Z", "+00:00")).date()
          except Exception:
              continue
          if now.date() >= deadline_date + timedelta(days=lag_days):
              triggered.append(conf)
              mark_conference_triggered(db_path, conf.name, conf.year)
      return triggered
  \<close>
  The model returns the store and the number of clock readings as they are when the function
  returns or raises, and then the list or the exception. The date sum is outside the
  \<^verbatim>\<open>try\<close>, so its OverflowError leaves the function.
\<close>

fun select_loop ::
  "pylib \<Rightarrow> (string \<rightharpoonup> string) \<Rightarrow> int \<Rightarrow> pydatetime \<Rightarrow> conference_config list \<Rightarrow>
   db \<Rightarrow> nat \<Rightarrow> conference_config list \<Rightarrow> db \<times> nat \<times> (py_error + conference_config list)" where
  "select_loop py deadlines lag_days now [] d k triggered = (d, k, Inr triggered)"
| "select_loop py deadlines lag_days now (conf # rest) d k triggered =
     (let acronym = str_upper py (cc_name conf);
          deadline_str = deadlines acronym;
          d1 = upsert_conference d (cc_name conf) (cc_year conf) deadline_str
      in case deadline_str of
           None \<Rightarrow> select_loop py deadlines lag_days now rest d1 k triggered
         | Some s \<Rightarrow>
             if s = [] then select_loop py deadlines lag_days now rest d1 k triggered
             else
               (case fromisoformat py (replace_Z s) of
                  None \<Rightarrow> select_loop py deadlines lag_days now rest d1 k triggered
                | Some deadline \<Rightarrow>
                    (case date_add_days (dt_ordinal deadline) lag_days of
                       Inl e \<Rightarrow> (d1, k, Inl e)
                     | Inr due \<Rightarrow>
                         if dt_ordinal now \<ge> due
                         then select_loop py deadlines lag_days now rest
                                (mark_conference_triggered d1 (utcnow py k) (cc_name conf) (cc_year conf))
                                (Suc k) (triggered @ [conf])
                         else select_loop py deadlines lag_days now rest d1 k triggered)))"

definition select_triggered_conferences ::
  "pylib \<Rightarrow> db \<Rightarrow> nat \<Rightarrow> conference_config list \<Rightarrow> (string \<rightharpoonup> string) \<Rightarrow> int \<Rightarrow>
   db \<times> nat \<times> (py_error + conference_config list)" where
  "select_triggered_conferences py d k config_confs deadlines lag_days =
     select_loop py deadlines lag_days (utcnow py k) config_confs d (Suc k) []"

text \<open>
  The activation condition in the specification's words: the feed has a deadline for the
  uppercased acronym, the deadline parses once \<^verbatim>\<open>Z\<close> is replaced, and today's date is
  at least the deadline's date plus the lag.
\<close>

definition activation_condition ::
  "pylib \<Rightarrow> (string \<rightharpoonup> string) \<Rightarrow> int \<Rightarrow> pydatetime \<Rightarrow> conference_config \<Rightarrow> bool" where
  "activation_condition py deadlines lag_days now conf =
     (case deadlines (str_upper py (cc_name conf)) of
        None \<Rightarrow> False
      | Some s \<Rightarrow>
          (case fromisoformat py (replace_Z s) of
             None \<Rightarrow> False
           | Some deadline \<Rightarrow> dt_ordinal now \<ge> dt_ordinal deadline + lag_days))"

text \<open>
  The date sum of one conference is representable: its deadline does not parse, or the lag
  is a valid \<^verbatim>\<open>timedelta\<close> and deadline plus lag is a date of the years 1 to 9999.
\<close>

definition date_sum_representable ::
  "pylib \<Rightarrow> (string \<rightharpoonup> string) \<Rightarrow> int \<Rightarrow> conference_config \<Rightarrow> bool" where
  "date_sum_representable py deadlines lag_days conf =
     (case deadlines (str_upper py (cc_name conf)) of
        None \<Rightarrow> True
      | Some s \<Rightarrow>
          (case fromisoformat py (replace_Z s) of
             None \<Rightarrow> True
           | Some deadline \<Rightarrow>
               abs lag_days \<le> max_delta_days
               \<and> 1 \<le> dt_ordinal deadline + lag_days
               \<and> dt_ordinal deadline + lag_days \<le> max_ordinal))"

text \<open>What one iteration does, by the three ways it can end.\<close>

datatype outcome = Skipped | Fired | Raised py_error

definition iteration ::
  "pylib \<Rightarrow> (string \<rightharpoonup> string) \<Rightarrow> int \<Rightarrow> pydatetime \<Rightarrow> conference_config \<Rightarrow> outcome" where
  "iteration py deadlines lag_days now conf =
     (case deadlines (str_upper py (cc_name conf)) of
        None \<Rightarrow> Skipped
      | Some s \<Rightarrow>
          if s = [] then Skipped
          else
            (case fromisoformat py (replace_Z s) of
               None \<Rightarrow> Skipped
             | Some deadline \<Rightarrow>
                 (case date_add_days (dt_ordinal deadline) lag_days of
                    Inl e \<Rightarrow> Raised e
                  | Inr due \<Rightarrow> if dt_ordinal now \<ge> due then Fired else Skipped)))"

lemma select_loop_step:
  "select_loop py deadlines lag_days now (conf # rest) d k triggered =
     (let d1 = upsert_conference d (cc_name conf) (cc_year conf)
                 (deadlines (str_upper py (cc_name conf)))
      in case iteration py deadlines lag_days now conf of
           Skipped \<Rightarrow> select_loop py deadlines lag_days now rest d1 k triggered
         | Fired \<Rightarrow> select_loop py deadlines lag_days now rest
                      (mark_conference_triggered d1 (utcnow py k) (cc_name conf) (cc_year conf))
                      (Suc k) (triggered @ [conf])
         | Raised e \<Rightarrow> (d1, k, Inl e))"
  by (simp add: iteration_def Let_def split: option.splits sum.splits)

lemma iteration_representable:
  assumes "fromisoformat py [] = None"
    and "date_sum_representable py deadlines lag_days conf"
  shows "iteration py deadlines lag_days now conf =
           (if activation_condition py deadlines lag_days now conf then Fired else Skipped)"
  using assms
  by (auto simp: iteration_def activation_condition_def date_sum_representable_def
        date_add_days_def replace_Z_def split: option.splits)

lemma select_loop_filter:
  assumes "fromisoformat py [] = None"
    and "list_all (date_sum_representable py deadlines lag_days) confs"
  shows "snd (snd (select_loop py deadlines lag_days now confs d k triggered)) =
           Inr (triggered @ filter (activation_condition py deadlines lag_days now) confs)"
  using assms(2)
proof (induction confs arbitrary: d k triggered)
  case Nil
  then show ?case by simp
next
  case (Cons conf rest)
  then have rep: "date_sum_representable py deadlines lag_days conf"
    and rest: "list_all (date_sum_representable py deadlines lag_days) rest"
    by simp_all
  show ?case
    unfolding select_loop_step iteration_representable [OF assms(1) rep]
    by (simp add: Let_def Cons.IH [OF rest])
qed

subsection \<open>A concrete library for the worked examples\<close>

text \<open>
  The theorems quantify over the library. The worked examples need one: ASCII
  \<^verbatim>\<open>upper\<close> and \<^verbatim>\<open>lower\<close>, a clock that starts at midnight of a given day and
  advances a microsecond per reading, and \<^verbatim>\<open>datetime.fromisoformat\<close> on the strings
  \<^verbatim>\<open>YYYY-MM-DD\<close>, \<^verbatim>\<open>YYYY-MM-DD?HH:MM:SS\<close> and
  \<^verbatim>\<open>YYYY-MM-DD?HH:MM:SS+HH:MM\<close> (\<^verbatim>\<open>?\<close> any character), which every Python
  that has the function reads as written here; the ordinal of a date is computed as
  \<^verbatim>\<open>date.toordinal\<close> does. On any other string this parser answers \<open>None\<close>, which the
  library need not: it stands for the library only on the strings of the examples.
\<close>

definition ascii_upper :: "string \<Rightarrow> string" where
  "ascii_upper s =
     map (\<lambda>c. case map_of (zip ''abcdefghijklmnopqrstuvwxyz'' ''ABCDEFGHIJKLMNOPQRSTUVWXYZ'') c of
                 Some u \<Rightarrow> u | None \<Rightarrow> c) s"

definition ascii_lower :: "string \<Rightarrow> string" where
  "ascii_lower s =
     map (\<lambda>c. case map_of (zip ''ABCDEFGHIJKLMNOPQRSTUVWXYZ'' ''abcdefghijklmnopqrstuvwxyz'') c of
                 Some l \<Rightarrow> l | None \<Rightarrow> c) s"

definition digit :: "char \<Rightarrow> int option" where
  "digit c = map_of (zip ''0123456789'' [0, 1, 2, 3, 4, 5, 6, 7, 8, 9]) c"

fun number_from :: "int \<Rightarrow> string \<Rightarrow> int option" where
  "number_from acc [] = Some acc"
| "number_from acc (c # cs) =
     (case digit c of None \<Rightarrow> None | Some v \<Rightarrow> number_from (10 * acc + v) cs)"

definition number :: "string \<Rightarrow> int option" where
  "number s = (if s = [] then None else number_from 0 s)"

definition is_leap :: "int \<Rightarrow> bool" where
  "is_leap y = (y mod 4 = 0 \<and> (y mod 100 \<noteq> 0 \<or> y mod 400 = 0))"

definition days_in_month :: "int \<Rightarrow> int \<Rightarrow> int" where
  "days_in_month y m =
     (if m = 2 then (if is_leap y then 29 else 28)
      else if m = 4 \<or> m = 6 \<or> m = 9 \<or> m = 11 then 30 else 31)"

definition days_before_year :: "int \<Rightarrow> int" where
  "days_before_year y = (y - 1) * 365 + (y - 1) div 4 - (y - 1) div 100 + (y - 1) div 400"

definition days_before_month :: "int \<Rightarrow> int \<Rightarrow> int" where
  "days_before_month y m =
     [0, 31, 59, 90, 120, 151, 181, 212, 243, 273, 304, 334] ! nat (m - 1)
     + (if m > 2 \<and> is_leap y then 1 else 0)"

definition ymd_ordinal :: "int \<Rightarrow> int \<Rightarrow> int \<Rightarrow> int" where
  "ymd_ordinal y m d = days_before_year y + days_before_month y m + d"

definition parse_date :: "string \<Rightarrow> int option" where
  "parse_date s =
     (if length s = 10 \<and> s ! 4 = CHR ''-'' \<and> s ! 7 = CHR ''-''
      then (case (number (take 4 s), number (take 2 (drop 5 s)), number (drop 8 s)) of
              (Some y, Some m, Some d) \<Rightarrow>
                if 1 \<le> y \<and> 1 \<le> m \<and> m \<le> 12 \<and> 1 \<le> d \<and> d \<le> days_in_month y m
                then Some (ymd_ordinal y m d) else None
            | _ \<Rightarrow> None)
      else None)"

definition parse_hms :: "string \<Rightarrow> int option" where
  "parse_hms s =
     (if length s = 8 \<and> s ! 2 = CHR '':'' \<and> s ! 5 = CHR '':''
      then (case (number (take 2 s), number (take 2 (drop 3 s)), number (drop 6 s)) of
              (Some h, Some m, Some sec) \<Rightarrow>
                if h < 24 \<and> m < 60 \<and> sec < 60
                then Some (((h * 60 + m) * 60 + sec) * 1000000) else None
            | _ \<Rightarrow> None)
      else None)"

definition parse_offset :: "string \<Rightarrow> int option" where
  "parse_offset s =
     (if length s = 6 \<and> (s ! 0 = CHR ''+'' \<or> s ! 0 = CHR ''-'') \<and> s ! 3 = CHR '':''
      then (case (number (take 2 (drop 1 s)), number (drop 4 s)) of
              (Some h, Some m) \<Rightarrow>
                if h < 24 \<and> m < 60
                then Some ((if s ! 0 = CHR ''-'' then - 1 else 1) * ((h * 60 + m) * 60 * 1000000))
                else None
            | _ \<Rightarrow> None)
      else None)"

definition iso_subset :: "string \<Rightarrow> pydatetime option" where
  "iso_subset s =
     (case parse_date (take 10 s) of
        None \<Rightarrow> None
      | Some ord \<Rightarrow>
          if length s = 10 then Some \<lparr>dt_ordinal = ord, dt_usec = 0, dt_offset = None\<rparr>
          else
            (case parse_hms (take 8 (drop 11 s)) of
               None \<Rightarrow> None
             | Some us \<Rightarrow>
                 if length s = 19 then Some \<lparr>dt_ordinal = ord, dt_usec = us, dt_offset = None\<rparr>
                 else
                   (case parse_offset (drop 19 s) of
                      None \<Rightarrow> None
                    | Some off \<Rightarrow> Some \<lparr>dt_ordinal = ord, dt_usec = us, dt_offset = Some off\<rparr>)))"

definition clock_from :: "int \<Rightarrow> nat \<Rightarrow> pydatetime" where
  "clock_from day k = \<lparr>dt_ordinal = day, dt_usec = int k, dt_offset = None\<rparr>"

definition example_py :: "int \<Rightarrow> pylib" where
  "example_py day =
     \<lparr>str_upper = ascii_upper, str_lower = ascii_lower, fromisoformat = iso_subset,
      utcnow = clock_from day\<rparr>"

text \<open>
  The configuration, the deadline feed and the empty store of the examples: ICML 2024 with
  deadline 2024-01-15, a workshop that the feed does not list, and a conference whose
  deadline is the last day of the year 9999.
\<close>

definition icml :: conference_config where
  "icml = \<lparr>cc_name = ''icml'', cc_year = 2024, cc_source_priority = None\<rparr>"

definition workshop :: conference_config where
  "workshop = \<lparr>cc_name = ''workshop'', cc_year = 2024, cc_source_priority = None\<rparr>"

definition far_future :: conference_config where
  "far_future = \<lparr>cc_name = ''far'', cc_year = 2024, cc_source_priority = None\<rparr>"

definition feed :: "string \<rightharpoonup> string" where
  "feed = [''ICML'' \<mapsto> ''2024-01-15'', ''FAR'' \<mapsto> ''9999-12-31'']"

definition empty_db :: db where
  "empty_db = \<lparr>conferences = Map.empty, papers = [], summaries = [], clusters = [], clusters_seq = 0\<rparr>"

lemmas example_defs =
  example_py_def clock_from_def ascii_upper_def iso_subset_def parse_date_def number_def digit_def
  days_in_month_def is_leap_def ymd_ordinal_def days_before_year_def days_before_month_def
  replace_Z_def icml_def workshop_def far_future_def feed_def

subsection \<open>Selection\<close>

text \<open>
  Within the range of Python's dates the function computes the activation condition. When
  the library rejects the empty string and, for every configured conference whose feed
  deadline parses, deadline plus lag is a representable date, the function returns exactly
  the configured conferences, in their order, that satisfy the condition: the feed has a
  deadline for the uppercased acronym, it parses once \<^verbatim>\<open>Z\<close> is replaced by
  \<^verbatim>\<open>+00:00\<close>, and today's UTC date is at least the deadline's date plus
  \<^verbatim>\<open>lag_days\<close>. A conference without a deadline in the feed never satisfies the
  condition.
\<close>

lemma select_triggered_conferences_in_range:
  assumes "fromisoformat py [] = None"
    and "list_all (date_sum_representable py deadlines lag_days) config_confs"
  shows "snd (snd (select_triggered_conferences py d k config_confs deadlines lag_days)) =
           Inr (filter (activation_condition py deadlines lag_days (utcnow py k)) config_confs)"
  unfolding select_triggered_conferences_def
  using select_loop_filter [OF assms, of "utcnow py k" d "Suc k" "[]"] by simp

text \<open>
  Deadline 2024-01-15 and lag 7: the conference is selected on 2024-01-22 and not on
  2024-01-21; the conference that the feed does not list is selected on neither day.
\<close>

lemma select_triggered_conferences_in_range_example:
  "fromisoformat (example_py (ymd_ordinal 2024 1 22)) [] = None
   \<and> list_all (date_sum_representable (example_py (ymd_ordinal 2024 1 22)) feed 7) [icml, workshop]
   \<and> snd (snd (select_triggered_conferences (example_py (ymd_ordinal 2024 1 22)) empty_db 0
                 [icml, workshop] feed 7)) = Inr [icml]
   \<and> snd (snd (select_triggered_conferences (example_py (ymd_ordinal 2024 1 21)) empty_db 0
                 [icml, workshop] feed 7)) = Inr []"
proof -
  have empty: "fromisoformat (example_py day) [] = None" for day
    by (simp add: example_defs)
  have range: "list_all (date_sum_representable (example_py day) feed 7) [icml, workshop]" for day
    by (simp add: date_sum_representable_def example_defs max_ordinal_def max_delta_days_def)
  have on22: "filter (activation_condition (example_py (ymd_ordinal 2024 1 22)) feed 7
                (utcnow (example_py (ymd_ordinal 2024 1 22)) 0)) [icml, workshop] = [icml]"
    by (simp add: activation_condition_def example_defs)
  have on21: "filter (activation_condition (example_py (ymd_ordinal 2024 1 21)) feed 7
                (utcnow (example_py (ymd_ordinal 2024 1 21)) 0)) [icml, workshop] = []"
    by (simp add: activation_condition_def example_defs)
  from select_triggered_conferences_in_range
         [OF empty [of "ymd_ordinal 2024 1 22"] range [of "ymd_ordinal 2024 1 22"],
          where d = empty_db and k = 0]
       select_triggered_conferences_in_range
         [OF empty [of "ymd_ordinal 2024 1 21"] range [of "ymd_ordinal 2024 1 21"],
          where d = empty_db and k = 0]
  show ?thesis
    unfolding on22 on21 using empty range by simp
qed

text \<open>
  Claim C1. Every configured conference is selected if and only if it satisfies the
  activation condition. The code does not do this for every feed: the parse of the deadline
  stands inside \<^verbatim>\<open>try ... except Exception: continue\<close>, which skips one bad
  conference, but the sum \<^verbatim>\<open>deadline_date + timedelta(days=lag_days)\<close> stands after
  it, outside the \<^verbatim>\<open>try\<close>. With a feed deadline of 9999-12-31 for a conference
  configured before ICML and lag 7, on 2024-01-22 ICML (deadline 2024-01-15) satisfies the
  activation condition, yet the date sum of the first conference raises
  \<^verbatim>\<open>OverflowError\<close>, the exception leaves the function and ICML is not selected.
\<close>

theorem select_triggered_conferences_overflow:
  "activation_condition (example_py (ymd_ordinal 2024 1 22)) feed 7
     (utcnow (example_py (ymd_ordinal 2024 1 22)) 0) icml
   \<and> snd (snd (select_triggered_conferences (example_py (ymd_ordinal 2024 1 22)) empty_db 0
                 [far_future, icml] feed 7)) = Inl OverflowError"
  by (simp add: activation_condition_def select_triggered_conferences_def example_defs
        date_add_days_def max_ordinal_def max_delta_days_def Let_def)



subsection \<open>What a run of the trigger engine leaves in storage\<close>

definition conf_key :: "conference_config \<Rightarrow> string \<times> int" where
  "conf_key conf = (cc_name conf, cc_year conf)"


text \<open>
  \<^verbatim>\<open>INSERT OR IGNORE\<close> on a (name, year) that is stored changes nothing, the deadline
  included.
\<close>

lemma upsert_conference_existing:
  "conferences d (name, year) = Some row \<Longrightarrow> upsert_conference d name year deadline = d"
  by (simp add: upsert_conference_def)

lemma upsert_conference_keeps:
  "conferences d key = Some row \<Longrightarrow> conferences (upsert_conference d name year deadline) key = Some row"
  by (cases "conferences d (name, year)") (auto simp: upsert_conference_def)

lemma upsert_conference_registers:
  "\<exists>row. conferences (upsert_conference d name year deadline) (name, year) = Some row"
  by (cases "conferences d (name, year)") (auto simp: upsert_conference_def)

lemma mark_conference_triggered_other:
  "key \<noteq> (name, year) \<Longrightarrow> conferences (mark_conference_triggered d stamp name year) key = conferences d key"
  by (cases "conferences d (name, year)") (auto simp: mark_conference_triggered_def)

lemma mark_conference_triggered_same:
  "conferences d (name, year) = Some row \<Longrightarrow>
   conferences (mark_conference_triggered d stamp name year) (name, year) =
     Some (row\<lparr>cf_triggered_at := Some stamp\<rparr>)"
  by (simp add: mark_conference_triggered_def)

lemma select_loop_keeps_deadline:
  "conferences d key = Some row \<Longrightarrow>
   \<exists>row'. conferences (fst (select_loop py deadlines lag_days now confs d k triggered)) key = Some row'
         \<and> cf_deadline row' = cf_deadline row"
proof (induction confs arbitrary: d k triggered row)
  case Nil
  then show ?case by simp
next
  case (Cons conf rest)
  let ?d1 = "upsert_conference d (cc_name conf) (cc_year conf) (deadlines (str_upper py (cc_name conf)))"
  have d1: "conferences ?d1 key = Some row"
    using Cons.prems by (rule upsert_conference_keeps)
  have marked: "\<exists>row'. conferences (mark_conference_triggered ?d1 stamp (cc_name conf) (cc_year conf)) key = Some row'
                  \<and> cf_deadline row' = cf_deadline row" for stamp
  proof (cases "key = (cc_name conf, cc_year conf)")
    case True
    with d1 show ?thesis by (simp add: mark_conference_triggered_same)
  next
    case False
    with d1 show ?thesis by (simp add: mark_conference_triggered_other)
  qed
  show ?case
  proof (cases "iteration py deadlines lag_days now conf")
    case Skipped
    with Cons.IH [OF d1] show ?thesis by (simp add: select_loop_step del: select_loop.simps(2))
  next
    case Fired
    from marked [of "utcnow py k"] obtain row' where
      r: "conferences (mark_conference_triggered ?d1 (utcnow py k) (cc_name conf) (cc_year conf)) key = Some row'"
      and dl: "cf_deadline row' = cf_deadline row" by blast
    from Cons.IH [OF r] dl Fired show ?thesis by (simp add: select_loop_step del: select_loop.simps(2))
  next
    case (Raised e)
    with d1 show ?thesis by (simp add: select_loop_step del: select_loop.simps(2))
  qed
qed

lemma select_loop_row_unchanged:
  "conferences d key = Some row \<Longrightarrow>
   (\<forall>conf \<in> set confs. conf_key conf = key \<longrightarrow> iteration py deadlines lag_days now conf \<noteq> Fired) \<Longrightarrow>
   conferences (fst (select_loop py deadlines lag_days now confs d k triggered)) key = Some row"
proof (induction confs arbitrary: d k triggered)
  case Nil
  then show ?case by simp
next
  case (Cons conf rest)
  let ?d1 = "upsert_conference d (cc_name conf) (cc_year conf) (deadlines (str_upper py (cc_name conf)))"
  have d1: "conferences ?d1 key = Some row"
    using Cons.prems(1) by (rule upsert_conference_keeps)
  have rest: "\<forall>conf \<in> set rest. conf_key conf = key \<longrightarrow> iteration py deadlines lag_days now conf \<noteq> Fired"
    using Cons.prems(2) by simp
  show ?case
  proof (cases "iteration py deadlines lag_days now conf")
    case Skipped
    with Cons.IH [OF d1 rest] show ?thesis by (simp add: select_loop_step del: select_loop.simps(2))
  next
    case Fired
    with Cons.prems(2) have "key \<noteq> (cc_name conf, cc_year conf)"
      by (auto simp: conf_key_def)
    with d1 have "conferences (mark_conference_triggered ?d1 (utcnow py k) (cc_name conf) (cc_year conf)) key = Some row"
      by (simp add: mark_conference_triggered_other)
    from Cons.IH [OF this rest] Fired show ?thesis by (simp add: select_loop_step del: select_loop.simps(2))
  next
    case (Raised e)
    with d1 show ?thesis by (simp add: select_loop_step del: select_loop.simps(2))
  qed
qed

lemma select_loop_ticks: "k \<le> fst (snd (select_loop py deadlines lag_days now confs d k triggered))"
proof (induction confs arbitrary: d k triggered)
  case Nil
  then show ?case by simp
next
  case (Cons conf rest)
  show ?case
  proof (cases "iteration py deadlines lag_days now conf")
    case Fired
    have "Suc k \<le> fst (snd (select_loop py deadlines lag_days now rest
             (mark_conference_triggered (upsert_conference d (cc_name conf) (cc_year conf) (deadlines (str_upper py (cc_name conf))))
                (utcnow py k) (cc_name conf) (cc_year conf)) (Suc k) (triggered @ [conf])))"
      by (rule Cons.IH)
    with Fired show ?thesis by (simp add: select_loop_step del: select_loop.simps(2))
  qed (simp_all add: select_loop_step Cons.IH del: select_loop.simps(2))
qed

text \<open>
  The row of \<open>key\<close> is stamped with the clock reading \<open>j\<close> for some \<open>lo \<le> j < hi\<close>.
\<close>

definition stamped_in :: "pylib \<Rightarrow> db \<Rightarrow> string \<times> int \<Rightarrow> nat \<Rightarrow> nat \<Rightarrow> bool" where
  "stamped_in py d key lo hi =
     (\<exists>row j. conferences d key = Some row \<and> cf_triggered_at row = Some (utcnow py j) \<and> lo \<le> j \<and> j < hi)"

lemma stamped_in_mono: "stamped_in py d key lo hi \<Longrightarrow> lo' \<le> lo \<Longrightarrow> hi \<le> hi' \<Longrightarrow> stamped_in py d key lo' hi'"
  unfolding stamped_in_def by (meson le_trans less_le_trans)

lemma stamped_in_upsert:
  "stamped_in py d key lo hi \<Longrightarrow> stamped_in py (upsert_conference d name year deadline) key lo hi"
  unfolding stamped_in_def by (metis upsert_conference_keeps)

lemma stamped_in_mark:
  assumes "stamped_in py d key lo k"
  shows "stamped_in py (mark_conference_triggered d (utcnow py k) name year) key lo (Suc k)"
proof (cases "key = (name, year)")
  case True
  from assms obtain row where "conferences d (name, year) = Some row"
    unfolding stamped_in_def True by blast
  from mark_conference_triggered_same [OF this, of "utcnow py k"] assms
  show ?thesis unfolding stamped_in_def True
    by (intro exI [of _ "row\<lparr>cf_triggered_at := Some (utcnow py k)\<rparr>"] exI [of _ k]) auto
next
  case False
  from stamped_in_mono [OF assms, of lo "Suc k"] False
  show ?thesis unfolding stamped_in_def by (simp add: mark_conference_triggered_other)
qed

lemma select_loop_stamped_in:
  "stamped_in py d key lo k \<Longrightarrow>
   stamped_in py (fst (select_loop py deadlines lag_days now confs d k triggered)) key lo
     (fst (snd (select_loop py deadlines lag_days now confs d k triggered)))"
proof (induction confs arbitrary: d k triggered)
  case Nil
  then show ?case by simp
next
  case (Cons conf rest)
  let ?d1 = "upsert_conference d (cc_name conf) (cc_year conf) (deadlines (str_upper py (cc_name conf)))"
  have d1: "stamped_in py ?d1 key lo k"
    using Cons.prems by (rule stamped_in_upsert)
  show ?case
  proof (cases "iteration py deadlines lag_days now conf")
    case Skipped
    with Cons.IH [OF d1] show ?thesis by (simp add: select_loop_step del: select_loop.simps(2))
  next
    case Fired
    from Cons.IH [OF stamped_in_mark [OF d1]] Fired show ?thesis by (simp add: select_loop_step del: select_loop.simps(2))
  next
    case (Raised e)
    with d1 show ?thesis by (simp add: select_loop_step del: select_loop.simps(2))
  qed
qed

lemma select_loop_selected_stamped:
  "snd (snd (select_loop py deadlines lag_days now confs d k triggered)) = Inr result \<Longrightarrow>
   conf \<in> set result \<Longrightarrow>
   conf \<in> set triggered \<or>
   stamped_in py (fst (select_loop py deadlines lag_days now confs d k triggered)) (conf_key conf) k
     (fst (snd (select_loop py deadlines lag_days now confs d k triggered)))"
proof (induction confs arbitrary: d k triggered)
  case Nil
  then show ?case by simp
next
  case (Cons c rest)
  let ?d1 = "upsert_conference d (cc_name c) (cc_year c) (deadlines (str_upper py (cc_name c)))"
  let ?d2 = "mark_conference_triggered ?d1 (utcnow py k) (cc_name c) (cc_year c)"
  show ?case
  proof (cases "iteration py deadlines lag_days now c")
    case Skipped
    with Cons.prems have "snd (snd (select_loop py deadlines lag_days now rest ?d1 k triggered)) = Inr result"
      by (simp add: select_loop_step del: select_loop.simps(2))
    from Cons.IH [OF this Cons.prems(2)] Skipped show ?thesis by (simp add: select_loop_step del: select_loop.simps(2))
  next
    case Fired
    let ?run = "select_loop py deadlines lag_days now rest ?d2 (Suc k) (triggered @ [c])"
    from Fired Cons.prems have res: "snd (snd ?run) = Inr result"
      by (simp add: select_loop_step del: select_loop.simps(2))
    have whole: "select_loop py deadlines lag_days now (c # rest) d k triggered = ?run"
      using Fired by (simp add: select_loop_step del: select_loop.simps(2))
    from Cons.IH [OF res Cons.prems(2)]
    consider "conf \<in> set triggered" | "conf = c" | "stamped_in py (fst ?run) (conf_key conf) (Suc k) (fst (snd ?run))"
      by auto
    then show ?thesis
    proof cases
      case 1
      then show ?thesis by simp
    next
      case 2
      obtain row where "conferences ?d1 (cc_name c, cc_year c) = Some row"
        using upsert_conference_registers by blast
      then have "stamped_in py ?d2 (conf_key c) k (Suc k)"
        unfolding stamped_in_def conf_key_def
        by (intro exI [of _ "row\<lparr>cf_triggered_at := Some (utcnow py k)\<rparr>"] exI [of _ k])
           (simp add: mark_conference_triggered_same)
      from select_loop_stamped_in [OF this] 2 show ?thesis
        unfolding whole by simp
    next
      case 3
      from stamped_in_mono [OF this, of k] show ?thesis
        unfolding whole by simp
    qed
  next
    case (Raised e)
    with Cons.prems show ?thesis by (simp add: select_loop_step del: select_loop.simps(2))
  qed
qed


lemma select_loop_keeps_stamp:
  "conferences d key = Some row \<Longrightarrow> cf_triggered_at row \<noteq> None \<Longrightarrow>
   \<exists>row'. conferences (fst (select_loop py deadlines lag_days now confs d k triggered)) key = Some row'
         \<and> cf_triggered_at row' \<noteq> None"
proof (induction confs arbitrary: d k triggered row)
  case Nil
  then show ?case by simp
next
  case (Cons conf rest)
  let ?d1 = "upsert_conference d (cc_name conf) (cc_year conf) (deadlines (str_upper py (cc_name conf)))"
  have d1: "conferences ?d1 key = Some row"
    using Cons.prems(1) by (rule upsert_conference_keeps)
  show ?case
  proof (cases "iteration py deadlines lag_days now conf")
    case Skipped
    with Cons.IH [OF d1 Cons.prems(2)] show ?thesis
      by (simp add: select_loop_step del: select_loop.simps(2))
  next
    case Fired
    have "\<exists>row'. conferences (mark_conference_triggered ?d1 (utcnow py k) (cc_name conf) (cc_year conf)) key = Some row'
                  \<and> cf_triggered_at row' \<noteq> None"
    proof (cases "key = (cc_name conf, cc_year conf)")
      case True
      with d1 show ?thesis by (simp add: mark_conference_triggered_same)
    next
      case False
      with d1 Cons.prems(2) show ?thesis by (simp add: mark_conference_triggered_other)
    qed
    then obtain row' where
      r: "conferences (mark_conference_triggered ?d1 (utcnow py k) (cc_name conf) (cc_year conf)) key = Some row'"
      and st: "cf_triggered_at row' \<noteq> None" by blast
    from Cons.IH [OF r st] Fired show ?thesis
      by (simp add: select_loop_step del: select_loop.simps(2))
  next
    case (Raised e)
    with d1 Cons.prems(2) show ?thesis
      by (simp add: select_loop_step del: select_loop.simps(2))
  qed
qed

lemma select_loop_fired_in_result:
  "snd (snd (select_loop py deadlines lag_days now confs d k triggered)) = Inr result \<Longrightarrow>
   set triggered \<subseteq> set result
   \<and> (\<forall>conf \<in> set confs. iteration py deadlines lag_days now conf = Fired \<longrightarrow> conf \<in> set result)"
proof (induction confs arbitrary: d k triggered)
  case Nil
  then show ?case by simp
next
  case (Cons c rest)
  show ?case
  proof (cases "iteration py deadlines lag_days now c")
    case Skipped
    with Cons.prems have "snd (snd (select_loop py deadlines lag_days now rest
        (upsert_conference d (cc_name c) (cc_year c) (deadlines (str_upper py (cc_name c)))) k triggered)) = Inr result"
      by (simp add: select_loop_step del: select_loop.simps(2))
    from Cons.IH [OF this] Skipped show ?thesis by simp
  next
    case Fired
    with Cons.prems have "snd (snd (select_loop py deadlines lag_days now rest
        (mark_conference_triggered (upsert_conference d (cc_name c) (cc_year c) (deadlines (str_upper py (cc_name c))))
           (utcnow py k) (cc_name c) (cc_year c)) (Suc k) (triggered @ [c]))) = Inr result"
      by (simp add: select_loop_step del: select_loop.simps(2))
    from Cons.IH [OF this] show ?thesis by simp
  next
    case (Raised e)
    with Cons.prems show ?thesis by (simp add: select_loop_step del: select_loop.simps(2))
  qed
qed

text \<open>
  Claim C6, as amended. The selection does not read \<^verbatim>\<open>triggered_at\<close> and
  \<^verbatim>\<open>mark_conference_triggered\<close> updates it unconditionally. So after a run that
  returns, every conference it selected is stamped with a clock reading taken in that very
  run, whatever its row held before; the row of a (name, year) that the run did not select
  is as it was; and a stamp is never cleared.
\<close>

theorem retrigger_restamps:
  assumes "select_triggered_conferences py d k config_confs deadlines lag_days = (d', k', Inr result)"
  shows "(\<forall>conf \<in> set result. \<exists>row j. conferences d' (conf_key conf) = Some row
             \<and> cf_triggered_at row = Some (utcnow py j) \<and> k < j \<and> j < k')
       \<and> (\<forall>key row. conferences d key = Some row \<longrightarrow> (\<forall>conf \<in> set result. conf_key conf \<noteq> key)
             \<longrightarrow> conferences d' key = Some row)
       \<and> (\<forall>key row. conferences d key = Some row \<longrightarrow> cf_triggered_at row \<noteq> None
             \<longrightarrow> (\<exists>row'. conferences d' key = Some row' \<and> cf_triggered_at row' \<noteq> None))"
proof -
  let ?run = "select_loop py deadlines lag_days (utcnow py k) config_confs d (Suc k) []"
  from assms have run: "?run = (d', k', Inr result)"
    by (simp add: select_triggered_conferences_def)
  then have parts: "fst ?run = d'" "fst (snd ?run) = k'" "snd (snd ?run) = Inr result"
    by simp_all
  have stamped: "\<exists>row j. conferences d' (conf_key conf) = Some row
             \<and> cf_triggered_at row = Some (utcnow py j) \<and> k < j \<and> j < k'" if "conf \<in> set result" for conf
    using select_loop_selected_stamped [OF parts(3) that] unfolding parts stamped_in_def
    by (auto simp: Suc_le_eq)
  have kept: "conferences d' key = Some row"
    if "conferences d key = Some row" "\<forall>conf \<in> set result. conf_key conf \<noteq> key" for key row
  proof -
    from select_loop_fired_in_result [OF parts(3)] that(2)
    have "\<forall>conf \<in> set config_confs. conf_key conf = key \<longrightarrow>
            iteration py deadlines lag_days (utcnow py k) conf \<noteq> Fired"
      by blast
    from select_loop_row_unchanged [OF that(1) this, of "Suc k" "[]"] show ?thesis
      unfolding parts .
  qed
  have never_cleared: "\<exists>row'. conferences d' key = Some row' \<and> cf_triggered_at row' \<noteq> None"
    if "conferences d key = Some row" "cf_triggered_at row \<noteq> None" for key row
    using select_loop_keeps_stamp [OF that, of py deadlines lag_days "utcnow py k" config_confs "Suc k" "[]"]
    unfolding parts .
  from stamped kept never_cleared show ?thesis by blast
qed

text \<open>
  Two runs over the same conference, on 2024-01-22 and on 2024-01-23, starting from an
  empty store.
\<close>

definition first_run :: db where
  "first_run = fst (select_triggered_conferences (example_py (ymd_ordinal 2024 1 22)) empty_db 0 [icml] feed 7)"

lemma first_run_eval:
  "select_triggered_conferences (example_py (ymd_ordinal 2024 1 22)) empty_db 0 [icml] feed 7 =
    (empty_db\<lparr>conferences := [(''icml'', 2024) \<mapsto>
        \<lparr>cf_deadline = Some ''2024-01-15'',
         cf_triggered_at = Some \<lparr>dt_ordinal = ymd_ordinal 2024 1 22, dt_usec = 1, dt_offset = None\<rparr>\<rparr>]\<rparr>,
     2, Inr [icml])"
  by (simp add: select_triggered_conferences_def example_defs date_add_days_def max_ordinal_def
        max_delta_days_def Let_def upsert_conference_def mark_conference_triggered_def empty_db_def)

text \<open>
  The claim as stated fails: the second run replaces the stamp of the first.
\<close>

theorem retrigger_overwrites_stamp:
  "map_option cf_triggered_at (conferences first_run (''icml'', 2024)) =
     Some (Some \<lparr>dt_ordinal = ymd_ordinal 2024 1 22, dt_usec = 1, dt_offset = None\<rparr>)
   \<and> map_option cf_triggered_at
       (conferences (fst (select_triggered_conferences (example_py (ymd_ordinal 2024 1 23)) first_run 0
                            [icml] feed 7)) (''icml'', 2024)) =
     Some (Some \<lparr>dt_ordinal = ymd_ordinal 2024 1 23, dt_usec = 1, dt_offset = None\<rparr>)"
  unfolding first_run_def first_run_eval
  by (simp add: select_triggered_conferences_def example_defs date_add_days_def max_ordinal_def
        max_delta_days_def Let_def upsert_conference_def mark_conference_triggered_def empty_db_def)

theorem retrigger_restamps_witness:
  "select_triggered_conferences (example_py (ymd_ordinal 2024 1 23)) first_run 0 [icml] feed 7 =
     (first_run\<lparr>conferences := [(''icml'', 2024) \<mapsto>
        \<lparr>cf_deadline = Some ''2024-01-15'',
         cf_triggered_at = Some \<lparr>dt_ordinal = ymd_ordinal 2024 1 23, dt_usec = 1, dt_offset = None\<rparr>\<rparr>]\<rparr>,
      2, Inr [icml])
   \<and> (\<exists>row j. conferences (first_run\<lparr>conferences := [(''icml'', 2024) \<mapsto>
        \<lparr>cf_deadline = Some ''2024-01-15'',
         cf_triggered_at = Some \<lparr>dt_ordinal = ymd_ordinal 2024 1 23, dt_usec = 1, dt_offset = None\<rparr>\<rparr>]\<rparr>)
          (conf_key icml) = Some row
        \<and> cf_triggered_at row = Some (utcnow (example_py (ymd_ordinal 2024 1 23)) j) \<and> 0 < j \<and> j < 2)"
proof -
  have run: "select_triggered_conferences (example_py (ymd_ordinal 2024 1 23)) first_run 0 [icml] feed 7 =
     (first_run\<lparr>conferences := [(''icml'', 2024) \<mapsto>
        \<lparr>cf_deadline = Some ''2024-01-15'',
         cf_triggered_at = Some \<lparr>dt_ordinal = ymd_ordinal 2024 1 23, dt_usec = 1, dt_offset = None\<rparr>\<rparr>]\<rparr>,
      2, Inr [icml])"
    unfolding first_run_def first_run_eval
    by (simp add: select_triggered_conferences_def example_defs date_add_days_def max_ordinal_def
        max_delta_days_def Let_def upsert_conference_def mark_conference_triggered_def empty_db_def)
  from retrigger_restamps [OF run] have
    "\<forall>conf \<in> set [icml]. \<exists>row j. conferences (first_run\<lparr>conferences := [(''icml'', 2024) \<mapsto>
        \<lparr>cf_deadline = Some ''2024-01-15'',
         cf_triggered_at = Some \<lparr>dt_ordinal = ymd_ordinal 2024 1 23, dt_usec = 1, dt_offset = None\<rparr>\<rparr>]\<rparr>)
          (conf_key conf) = Some row
        \<and> cf_triggered_at row = Some (utcnow (example_py (ymd_ordinal 2024 1 23)) j) \<and> 0 < j \<and> j < 2"
    by blast
  with run show ?thesis by simp
qed

text \<open>
  Claim C5 at a failing input. \<^verbatim>\<open>setup_db.py\<close> registers every configured conference
  with \<^verbatim>\<open>upsert_conference(db_path, name, year)\<close>, that is, without a deadline. In the
  next pipeline run the feed supplies 2024-01-15 for ICML; the conference is upserted, but
  the stored deadline is still NULL (\<open>select_loop_keeps_deadline\<close> is the general fact:
  no run changes the deadline of a stored row).
\<close>

theorem upsert_conference_keeps_stale_deadline:
  "feed (ascii_upper (cc_name icml)) = Some ''2024-01-15''
   \<and> map_option cf_deadline
       (conferences (fst (select_triggered_conferences (example_py (ymd_ordinal 2024 1 22))
                            (upsert_conference empty_db ''icml'' 2024 None) 0 [icml] feed 7))
          (''icml'', 2024)) = Some None"
  by (simp add: select_triggered_conferences_def example_defs date_add_days_def max_ordinal_def
        max_delta_days_def Let_def upsert_conference_def mark_conference_triggered_def empty_db_def)



subsection \<open>The collector: \<^verbatim>\<open>collector.collect_papers\<close>\<close>

text \<open>
  A harvested record with the fields that \<^verbatim>\<open>collect_papers\<close> reads or writes (the
  other keys of the dict, among them the two that \<^verbatim>\<open>_normalize\<close> defaults, pass
  through unchanged). The source adapters are the environment: each answers with a list of
  records, possibly a different one at each call, so the answer depends on the position
  \<open>i\<close> of the call in the priority list.
\<close>

record paper =
  pr_title :: string
  pr_abstract :: string
  pr_conference :: string
  pr_year :: int
  pr_source :: string

record adapters =
  fetch_openreview :: "nat \<Rightarrow> paper list"
  fetch_official_site :: "nat \<Rightarrow> paper list"
  search_arxiv :: "nat \<Rightarrow> paper list"

text \<open>
  \<^verbatim>\<open>
  def _normalize(paper, conference, year, source):
      paper.setdefault("affiliations", "")
      paper.setdefault("supplemental_url", paper.get("supplementary_material"))
      paper.update({"conference": conference, "year": year, "source": source})
      return paper

  def collect_papers(conf, monitoring, categories, keywords):
      priority = conf.source_priority or ["openreview", "official", "arxiv"]
      seen_titles = set()
      collected = []
      for source in priority:
          papers = []
          if source == "openreview":   papers = fetch_openreview(conf)
          elif source == "official":   papers = fetch_official_site(conf)
          elif source == "arxiv":      papers = search_arxiv(...)
          else:                        continue
          normalized = [_normalize(p, conf.name, conf.year, source) for p in papers]
          for p in normalized:
              title_key = p.get("title", "").lower()
              if title_key and title_key not in seen_titles:
                  seen_titles.add(title_key)
                  collected.append(p)
      return collected
  \<close>
\<close>

definition normalize :: "paper \<Rightarrow> string \<Rightarrow> int \<Rightarrow> string \<Rightarrow> paper" where
  "normalize p conference year source =
     p\<lparr>pr_conference := conference, pr_year := year, pr_source := source\<rparr>"

definition source_priority :: "conference_config \<Rightarrow> string list" where
  "source_priority conf =
     (case cc_source_priority conf of
        None \<Rightarrow> [''openreview'', ''official'', ''arxiv'']
      | Some ps \<Rightarrow> if ps = [] then [''openreview'', ''official'', ''arxiv''] else ps)"

definition fetch_source :: "adapters \<Rightarrow> nat \<Rightarrow> string \<Rightarrow> paper list option" where
  "fetch_source ad i source =
     (if source = ''openreview'' then Some (fetch_openreview ad i)
      else if source = ''official'' then Some (fetch_official_site ad i)
      else if source = ''arxiv'' then Some (search_arxiv ad i)
      else None)"

definition dedup_step :: "(string \<Rightarrow> string) \<Rightarrow> paper \<Rightarrow> string set \<times> paper list \<Rightarrow> string set \<times> paper list" where
  "dedup_step lower p st =
     (let title_key = lower (pr_title p) in
      if title_key \<noteq> [] \<and> title_key \<notin> fst st
      then (insert title_key (fst st), snd st @ [p])
      else st)"

fun collect_loop ::
  "(string \<Rightarrow> string) \<Rightarrow> adapters \<Rightarrow> conference_config \<Rightarrow> nat \<Rightarrow> string list \<Rightarrow>
   string set \<times> paper list \<Rightarrow> paper list" where
  "collect_loop lower ad conf i [] st = snd st"
| "collect_loop lower ad conf i (source # rest) st =
     (case fetch_source ad i source of
        None \<Rightarrow> collect_loop lower ad conf (Suc i) rest st
      | Some found \<Rightarrow>
          (let normalized = map (\<lambda>p. normalize p (cc_name conf) (cc_year conf) source) found
           in collect_loop lower ad conf (Suc i) rest (fold (dedup_step lower) normalized st)))"

definition collect_papers :: "(string \<Rightarrow> string) \<Rightarrow> adapters \<Rightarrow> conference_config \<Rightarrow> paper list" where
  "collect_papers lower ad conf = collect_loop lower ad conf 0 (source_priority conf) ({}, [])"

text \<open>
  All records the adapters returned, normalized, in priority order.
\<close>

fun fetched :: "adapters \<Rightarrow> conference_config \<Rightarrow> nat \<Rightarrow> string list \<Rightarrow> paper list" where
  "fetched ad conf i [] = []"
| "fetched ad conf i (source # rest) =
     (case fetch_source ad i source of
        None \<Rightarrow> []
      | Some found \<Rightarrow> map (\<lambda>p. normalize p (cc_name conf) (cc_year conf) source) found)
     @ fetched ad conf (Suc i) rest"

text \<open>
  The records kept, said without the loop: the record at position \<open>i\<close> of the stream is
  kept when its lowercased title is not empty and no earlier record of the stream has the
  same lowercased title. \<open>first_by_title\<close> is the same with a set of titles seen before
  the stream starts; it is the invariant of the proof.
\<close>

fun first_by_title :: "(string \<Rightarrow> string) \<Rightarrow> string set \<Rightarrow> paper list \<Rightarrow> paper list" where
  "first_by_title lower seen [] = []"
| "first_by_title lower seen (p # ps) =
     (if lower (pr_title p) = [] \<or> lower (pr_title p) \<in> seen
      then first_by_title lower seen ps
      else p # first_by_title lower (insert (lower (pr_title p)) seen) ps)"

definition kept_records :: "(string \<Rightarrow> string) \<Rightarrow> paper list \<Rightarrow> paper list" where
  "kept_records lower stream =
     map (\<lambda>i. stream ! i)
       (filter (\<lambda>i. lower (pr_title (stream ! i)) \<noteq> []
                   \<and> (\<forall>q \<in> set (take i stream). lower (pr_title q) \<noteq> lower (pr_title (stream ! i))))
          [0..<length stream])"

lemma fold_dedup_step:
  "fold (dedup_step lower) ps st =
     (fst st \<union> {k \<in> (\<lambda>p. lower (pr_title p)) ` set ps. k \<noteq> []}, snd st @ first_by_title lower (fst st) ps)"
proof (induction ps arbitrary: st)
  case Nil
  then show ?case by simp
next
  case (Cons p ps)
  show ?case
  proof (cases "lower (pr_title p) \<noteq> [] \<and> lower (pr_title p) \<notin> fst st")
    case True
    then have "dedup_step lower p st = (insert (lower (pr_title p)) (fst st), snd st @ [p])"
      by (simp add: dedup_step_def Let_def)
    then show ?thesis using True by (auto simp: Cons.IH)
  next
    case False
    then have "dedup_step lower p st = st"
      by (auto simp: dedup_step_def Let_def)
    then show ?thesis using False by (auto simp: Cons.IH)
  qed
qed

lemma first_by_title_append:
  "first_by_title lower seen (xs @ ys) =
     first_by_title lower seen xs
     @ first_by_title lower (seen \<union> {k \<in> (\<lambda>p. lower (pr_title p)) ` set xs. k \<noteq> []}) ys"
proof (induction xs arbitrary: seen)
  case Nil
  then show ?case by simp
next
  case (Cons x xs)
  have eq1: "insert (lower (pr_title x)) seen \<union> {k \<in> (\<lambda>p. lower (pr_title p)) ` set xs. k \<noteq> []}
           = seen \<union> {k \<in> (\<lambda>p. lower (pr_title p)) ` set (x # xs). k \<noteq> []}"
    if "lower (pr_title x) \<noteq> []"
    using that by auto
  have eq2: "seen \<union> {k \<in> (\<lambda>p. lower (pr_title p)) ` set xs. k \<noteq> []}
           = seen \<union> {k \<in> (\<lambda>p. lower (pr_title p)) ` set (x # xs). k \<noteq> []}"
    if "lower (pr_title x) = [] \<or> lower (pr_title x) \<in> seen"
    using that by auto
  show ?case
  proof (cases "lower (pr_title x) = [] \<or> lower (pr_title x) \<in> seen")
    case True
    then show ?thesis using Cons.IH [of seen] eq2 [OF True] by simp
  next
    case False
    then show ?thesis using Cons.IH [of "insert (lower (pr_title x)) seen"] eq1 by simp
  qed
qed

lemma collect_loop_fetched:
  "collect_loop lower ad conf i sources st =
     snd st @ first_by_title lower (fst st) (fetched ad conf i sources)"
proof (induction sources arbitrary: i st)
  case Nil
  then show ?case by simp
next
  case (Cons source rest)
  show ?case
    by (cases "fetch_source ad i source")
       (simp_all add: Cons.IH fold_dedup_step first_by_title_append Let_def)
qed

lemma first_by_title_kept:
  "first_by_title lower seen stream =
     map (\<lambda>i. stream ! i)
       (filter (\<lambda>i. lower (pr_title (stream ! i)) \<noteq> [] \<and> lower (pr_title (stream ! i)) \<notin> seen
                   \<and> (\<forall>q \<in> set (take i stream). lower (pr_title q) \<noteq> lower (pr_title (stream ! i))))
          [0..<length stream])"
proof (induction stream arbitrary: seen)
  case Nil
  then show ?case by simp
next
  case (Cons p ps)
  have split: "[0..<length (p # ps)] = 0 # map Suc [0..<length ps]"
    by (simp add: upt_rec [of 0 "Suc (length ps)"] map_Suc_upt del: upt_Suc)
  show ?case
    unfolding split
    by (auto simp: Cons.IH filter_map o_def
          intro!: arg_cong [where f = "map ((!) ps)"] filter_cong)
qed

text \<open>
  Claim C3, as amended. \<^verbatim>\<open>collect_papers\<close> drops every record whose lowercased title
  is empty and keeps, of the others, exactly the first record in priority order of each
  lowercased title; so two records with equal, non-empty lowercased titles (titles that
  differ only in letter case) yield the first of them and nothing else.
\<close>

theorem collect_papers_first_by_title:
  "collect_papers lower ad conf = kept_records lower (fetched ad conf 0 (source_priority conf))
   \<and> (\<forall>p1 p2. fetched ad conf 0 (source_priority conf) = [p1, p2]
        \<longrightarrow> lower (pr_title p1) = lower (pr_title p2) \<longrightarrow> lower (pr_title p1) \<noteq> []
        \<longrightarrow> collect_papers lower ad conf = [p1])"
proof -
  have main: "collect_papers lower ad conf = kept_records lower (fetched ad conf 0 (source_priority conf))"
    by (simp add: collect_papers_def collect_loop_fetched first_by_title_kept kept_records_def)
  have "kept_records lower [p1, p2] = [p1]"
    if "lower (pr_title p1) = lower (pr_title p2)" "lower (pr_title p1) \<noteq> []" for p1 p2
    using that by (simp add: kept_records_def upt_rec [of 0] upt_rec [of "Suc 0"])
  with main show ?thesis by simp
qed

text \<open>
  OpenReview returns one paper, arXiv the same title in capitals and one more paper; the
  conference has no priority list of its own.
\<close>

definition attention :: paper where
  "attention = \<lparr>pr_title = ''Attention Is All You Need'', pr_abstract = ''We propose the Transformer.'',
                pr_conference = [], pr_year = 0, pr_source = []\<rparr>"

definition two_sources :: adapters where
  "two_sources =
     \<lparr>fetch_openreview = (\<lambda>i. [attention]),
      fetch_official_site = (\<lambda>i. []),
      search_arxiv = (\<lambda>i. [attention\<lparr>pr_title := ''ATTENTION IS ALL YOU NEED'', pr_source := ''arxiv''\<rparr>,
                            attention\<lparr>pr_title := ''Scaling Laws'', pr_source := ''arxiv''\<rparr>])\<rparr>"

theorem collect_papers_first_by_title_witness:
  "collect_papers ascii_lower two_sources icml =
     [attention\<lparr>pr_conference := ''icml'', pr_year := 2024, pr_source := ''openreview''\<rparr>,
      attention\<lparr>pr_title := ''Scaling Laws'', pr_conference := ''icml'', pr_year := 2024,
                pr_source := ''arxiv''\<rparr>]"
proof -
  have "kept_records ascii_lower (fetched two_sources icml 0 (source_priority icml)) =
     [attention\<lparr>pr_conference := ''icml'', pr_year := 2024, pr_source := ''openreview''\<rparr>,
      attention\<lparr>pr_title := ''Scaling Laws'', pr_conference := ''icml'', pr_year := 2024,
                pr_source := ''arxiv''\<rparr>]"
    by (simp add: kept_records_def source_priority_def fetch_source_def two_sources_def attention_def
          normalize_def icml_def ascii_lower_def upt_rec [of 0] upt_rec [of "Suc 0"]
          upt_rec [of "Suc (Suc 0)"])
  with collect_papers_first_by_title [of ascii_lower two_sources icml] show ?thesis by simp
qed

text \<open>
  The claim as stated fails for a record without a title: it is the first occurrence of its
  title and it is not kept.
\<close>

definition untitled_source :: adapters where
  "untitled_source =
     \<lparr>fetch_openreview = (\<lambda>i. [attention\<lparr>pr_title := []\<rparr>]),
      fetch_official_site = (\<lambda>i. []),
      search_arxiv = (\<lambda>i. [])\<rparr>"

theorem collect_papers_drops_untitled:
  "fetched untitled_source icml 0 (source_priority icml) =
     [attention\<lparr>pr_title := [], pr_conference := ''icml'', pr_year := 2024, pr_source := ''openreview''\<rparr>]
   \<and> collect_papers ascii_lower untitled_source icml = []"
  by (simp add: collect_papers_def source_priority_def fetch_source_def untitled_source_def
        attention_def normalize_def icml_def ascii_lower_def dedup_step_def)

subsection \<open>The code verifier: \<^verbatim>\<open>code_verifier.verify_repo\<close>\<close>

text \<open>
  \<^verbatim>\<open>owner, repo\<close> of a URL, as \<^verbatim>\<open>fetch_repo_metadata\<close> reads them:
  \<^verbatim>\<open>parts = url.rstrip("/").split("github.com/")[-1].split("/")\<close> and then
  \<^verbatim>\<open>parts[0], parts[1]\<close>, an IndexError when there is no second part.
\<close>

definition rstrip_slash :: "string \<Rightarrow> string" where
  "rstrip_slash s = rev (dropWhile (\<lambda>c. c = CHR ''/'') (rev s))"

function split_from :: "string \<Rightarrow> string \<Rightarrow> string \<Rightarrow> string list" where
  "split_from sep acc s =
     (if s = [] then [rev acc]
      else if sep \<noteq> [] \<and> take (length sep) s = sep
           then rev acc # split_from sep [] (drop (length sep) s)
           else split_from sep (hd s # acc) (tl s))"
  by pat_completeness auto
termination
  by (relation "measure (\<lambda>(sep, acc, s). length s)") auto

definition py_split :: "string \<Rightarrow> string \<Rightarrow> string list" where
  "py_split s sep = split_from sep [] s"

definition parse_repo_url :: "string \<Rightarrow> (string \<times> string) option" where
  "parse_repo_url url =
     (let parts = py_split (last (py_split (rstrip_slash url) ''github.com/'')) ''/''
      in if length parts \<ge> 2 then Some (parts ! 0, parts ! 1) else None)"

text \<open>
  The code-hosting API is the environment. Each request either raises (the
  \<^verbatim>\<open>requests\<close> call fails: timeout, unreachable host) or returns: the repository
  metadata (\<open>None\<close> when the status is not 200), the author date of the latest commit as
  \<^verbatim>\<open>fetch_latest_commit_date\<close> returns it, the names of the root listing (\<open>None\<close>
  when the status is not 200), and the decoded readme as \<^verbatim>\<open>fetch_readme\<close> returns it.
  Of the metadata only \<^verbatim>\<open>size\<close> (0 when absent) and \<^verbatim>\<open>pushed_at\<close> are read.
\<close>

record repo_meta =
  rm_size :: int
  rm_pushed_at :: "string option"

record github =
  fetch_repo_metadata :: "string \<Rightarrow> string \<Rightarrow> string option \<Rightarrow> py_error + repo_meta option"
  fetch_latest_commit_date :: "string \<Rightarrow> string \<Rightarrow> string option \<Rightarrow> py_error + string option"
  get_contents :: "string \<Rightarrow> string \<Rightarrow> string option \<Rightarrow> py_error + string list option"
  fetch_readme :: "string \<Rightarrow> string \<Rightarrow> string option \<Rightarrow> py_error + string"

datatype repo_status = StatusNone | Placeholder | Verified

record verdict =
  vr_status :: repo_status
  vr_has_readme :: bool
  vr_has_code :: bool
  vr_last_commit :: "string option"

text \<open>
  \<^verbatim>\<open>
  def _check_code_files(owner, repo, token):
      resp = requests.get(".../contents", ...)
      if resp.status_code != 200:
          return False
      data = resp.json()
      allowed_ext = {".py", ".ipynb", ".cc", ".cpp", ".cu", ".js", ".java"}
      for item in data:
          name = item.get("name", "").lower()
          if any(name.endswith(ext) for ext in allowed_ext):
              return True
      return False
  \<close>
\<close>

definition allowed_ext :: "string list" where
  "allowed_ext = [''.py'', ''.ipynb'', ''.cc'', ''.cpp'', ''.cu'', ''.js'', ''.java'']"

definition endswith :: "string \<Rightarrow> string \<Rightarrow> bool" where
  "endswith s ext = (length ext \<le> length s \<and> drop (length s - length ext) s = ext)"

definition has_source_file :: "(string \<Rightarrow> string) \<Rightarrow> string list \<Rightarrow> bool" where
  "has_source_file lower names =
     list_ex (\<lambda>name. list_ex (\<lambda>ext. endswith (lower name) ext) allowed_ext) names"

definition check_code_files ::
  "(string \<Rightarrow> string) \<Rightarrow> github \<Rightarrow> string \<Rightarrow> string \<Rightarrow> string option \<Rightarrow> py_error + bool" where
  "check_code_files lower gh owner repo token =
     (case get_contents gh owner repo token of
        Inl e \<Rightarrow> Inl e
      | Inr None \<Rightarrow> Inr False
      | Inr (Some names) \<Rightarrow> Inr (has_source_file lower names))"

text \<open>
  \<^verbatim>\<open>repo_dt - paper_dt\<close>: the difference in microseconds; Python refuses to subtract a
  naive from an aware \<^verbatim>\<open>datetime\<close> (TypeError). \<^verbatim>\<open>.days\<close> of a
  \<^verbatim>\<open>timedelta\<close> is the floor of the difference in days.
\<close>

definition day_usec :: int where
  "day_usec = 86400000000"

definition dt_micro :: "pydatetime \<Rightarrow> int" where
  "dt_micro t = dt_ordinal t * day_usec + dt_usec t"

definition dt_sub :: "pydatetime \<Rightarrow> pydatetime \<Rightarrow> py_error + int" where
  "dt_sub a b =
     (case (dt_offset a, dt_offset b) of
        (None, None) \<Rightarrow> Inr (dt_micro a - dt_micro b)
      | (Some oa, Some ob) \<Rightarrow> Inr ((dt_micro a - oa) - (dt_micro b - ob))
      | _ \<Rightarrow> Inl TypeError)"

definition td_days :: "int \<Rightarrow> int" where
  "td_days delta = delta div day_usec"

text \<open>
  \<^verbatim>\<open>
      if paper_date and last_commit:
          try:
              paper_dt = datetime.fromisoformat(paper_date.replace("Z", "+00:00"))
              repo_dt = datetime.fromisoformat(last_commit.replace("Z", "+00:00"))
              if abs((repo_dt - paper_dt).days) > 180:
                  status = "Placeholder"
          except Exception:
              pass
  \<close>
\<close>

definition recency_downgrade ::
  "pylib \<Rightarrow> string option \<Rightarrow> string option \<Rightarrow> repo_status \<Rightarrow> repo_status" where
  "recency_downgrade py paper_date last_commit status =
     (case (paper_date, last_commit) of
        (Some pd, Some lc) \<Rightarrow>
          if pd \<noteq> [] \<and> lc \<noteq> [] then
            (case fromisoformat py (replace_Z pd) of
               None \<Rightarrow> status
             | Some paper_dt \<Rightarrow>
                 (case fromisoformat py (replace_Z lc) of
                    None \<Rightarrow> status
                  | Some repo_dt \<Rightarrow>
                      (case dt_sub repo_dt paper_dt of
                         Inl e \<Rightarrow> status
                       | Inr delta \<Rightarrow> if abs (td_days delta) > 180 then Placeholder else status)))
          else status
      | _ \<Rightarrow> status)"

text \<open>
  The language-model step. \<^verbatim>\<open>llm.run_tool_plan\<close> returns whatever JSON the collaborator
  wrote as its summary (or \<^verbatim>\<open>{}\<close>), or raises while it walks a malformed plan; the
  client is that function of the readme, and \<open>None\<close> is the absent client.
  \<^verbatim>\<open>
      if llm and readme_text:
          llm.register_tool(...)
          result = llm.run_tool_plan("...", {"text": readme_text})
          calls = []
          if isinstance(result, dict):
              calls = result.get("calls") or result.get("results") or []
          elif isinstance(result, list):
              calls = result
          for r in calls:
              if isinstance(r, dict) and r.get("result", {}).get("placeholder"):
                  status = "Placeholder"
                  break
  \<close>
  \<open>iterate\<close> is what the \<^verbatim>\<open>for\<close> statement walks: the elements of a list, the keys of
  a dict, the characters of a string, and a TypeError for anything else.
\<close>

type_synonym llm_client = "string \<Rightarrow> py_error + json"

definition get_or_null :: "(string \<times> json) list \<Rightarrow> string \<Rightarrow> json" where
  "get_or_null kvs k = (case dict_get kvs k of None \<Rightarrow> JNull | Some v \<Rightarrow> v)"

definition calls_of :: "json \<Rightarrow> json" where
  "calls_of result =
     (case result of
        JObj kvs \<Rightarrow>
          if truthy (get_or_null kvs ''calls'') then get_or_null kvs ''calls''
          else if truthy (get_or_null kvs ''results'') then get_or_null kvs ''results''
          else JArr []
      | JArr xs \<Rightarrow> JArr xs
      | _ \<Rightarrow> JArr [])"

definition iterate :: "json \<Rightarrow> py_error + json list" where
  "iterate v =
     (case v of
        JArr xs \<Rightarrow> Inr xs
      | JObj kvs \<Rightarrow> Inr (map (\<lambda>kv. JStr (fst kv)) kvs)
      | JStr s \<Rightarrow> Inr (map (\<lambda>c. JStr [c]) s)
      | _ \<Rightarrow> Inl TypeError)"

text \<open>
  One element of the loop: \<open>Inr True\<close> when it sets the status and breaks, \<open>Inr False\<close>
  when the loop goes on, AttributeError when \<^verbatim>\<open>r["result"]\<close> is present and has no
  \<^verbatim>\<open>get\<close>.
\<close>

definition judges_placeholder :: "json \<Rightarrow> py_error + bool" where
  "judges_placeholder r =
     (case r of
        JObj kvs \<Rightarrow>
          (case dict_get kvs ''result'' of
             None \<Rightarrow> Inr False
           | Some (JObj inner) \<Rightarrow> Inr (truthy (get_or_null inner ''placeholder''))
           | Some other \<Rightarrow> Inl AttributeError)
      | _ \<Rightarrow> Inr False)"

fun scan_calls :: "json list \<Rightarrow> py_error + bool" where
  "scan_calls [] = Inr False"
| "scan_calls (r # rs) =
     (case judges_placeholder r of
        Inl e \<Rightarrow> Inl e
      | Inr True \<Rightarrow> Inr True
      | Inr False \<Rightarrow> scan_calls rs)"

definition llm_flags :: "llm_client option \<Rightarrow> string \<Rightarrow> py_error + bool" where
  "llm_flags llm readme_text =
     (case llm of
        None \<Rightarrow> Inr False
      | Some run_tool_plan \<Rightarrow>
          if readme_text = [] then Inr False
          else
            (case run_tool_plan readme_text of
               Inl e \<Rightarrow> Inl e
             | Inr result \<Rightarrow>
                 (case iterate (calls_of result) of
                    Inl e \<Rightarrow> Inl e
                  | Inr calls \<Rightarrow> scan_calls calls)))"

definition llm_downgrade :: "llm_client option \<Rightarrow> string \<Rightarrow> repo_status \<Rightarrow> py_error + repo_status" where
  "llm_downgrade llm readme_text status =
     (case llm_flags llm readme_text of
        Inl e \<Rightarrow> Inl e
      | Inr flagged \<Rightarrow> Inr (if flagged then Placeholder else status))"

text \<open>
  \<^verbatim>\<open>
  def verify_repo(url, token, llm, paper_date):
      meta = fetch_repo_metadata(url, token)
      if not meta:
          return {"status": "None", "has_readme": False, "has_code": False, "last_commit": None}
      owner, repo = url.rstrip("/").split("github.com/")[-1].split("/")[:2]
      has_readme = meta.get("size", 0) > 0
      last_commit = fetch_latest_commit_date(owner, repo, token) or meta.get("pushed_at")
      has_code = _check_code_files(owner, repo, token)
      status = "Verified" if has_code and has_readme else "Placeholder"
      (the recency check)
      readme_text = ""
      try:
          readme_text = fetch_readme(owner, repo, token)
      except Exception:
          readme_text = ""
      (the language-model step)
      return {"status": status, "has_readme": has_readme, "has_code": has_code,
              "last_commit": last_commit}
  \<close>
  \<open>repo_checks\<close> is the body down to the recency check: \<open>None\<close> when the function
  returned the \<^verbatim>\<open>"None"\<close> verdict, otherwise the verdict as it stands before the
  language-model step. \<open>verify_repo\<close> is the whole function.
\<close>

definition none_verdict :: verdict where
  "none_verdict = \<lparr>vr_status = StatusNone, vr_has_readme = False, vr_has_code = False,
                    vr_last_commit = None\<rparr>"

definition py_or :: "string option \<Rightarrow> string option \<Rightarrow> string option" where
  "py_or a b = (case a of Some s \<Rightarrow> if s \<noteq> [] then Some s else b | None \<Rightarrow> b)"

definition repo_checks ::
  "pylib \<Rightarrow> github \<Rightarrow> string \<Rightarrow> string option \<Rightarrow> string option \<Rightarrow>
   py_error + (verdict \<times> string \<times> string) option" where
  "repo_checks py gh url token paper_date =
     (case parse_repo_url url of
        None \<Rightarrow> Inl IndexError
      | Some (owner, repo) \<Rightarrow>
          (case fetch_repo_metadata gh owner repo token of
             Inl e \<Rightarrow> Inl e
           | Inr None \<Rightarrow> Inr None
           | Inr (Some meta) \<Rightarrow>
               (let has_readme = rm_size meta > 0 in
                case fetch_latest_commit_date gh owner repo token of
                  Inl e \<Rightarrow> Inl e
                | Inr commit_date \<Rightarrow>
                    (let last_commit = py_or commit_date (rm_pushed_at meta) in
                     case check_code_files (str_lower py) gh owner repo token of
                       Inl e \<Rightarrow> Inl e
                     | Inr has_code \<Rightarrow>
                         (let status = (if has_code \<and> has_readme then Verified else Placeholder);
                              status = recency_downgrade py paper_date last_commit status
                          in Inr (Some (\<lparr>vr_status = status, vr_has_readme = has_readme,
                                         vr_has_code = has_code, vr_last_commit = last_commit\<rparr>,
                                        owner, repo)))))))"

definition readme_text_of :: "github \<Rightarrow> string \<Rightarrow> string \<Rightarrow> string option \<Rightarrow> string" where
  "readme_text_of gh owner repo token =
     (case fetch_readme gh owner repo token of Inl e \<Rightarrow> [] | Inr text \<Rightarrow> text)"

definition verify_repo ::
  "pylib \<Rightarrow> github \<Rightarrow> string \<Rightarrow> string option \<Rightarrow> llm_client option \<Rightarrow> string option \<Rightarrow>
   py_error + verdict" where
  "verify_repo py gh url token llm paper_date =
     (case repo_checks py gh url token paper_date of
        Inl e \<Rightarrow> Inl e
      | Inr None \<Rightarrow> Inr none_verdict
      | Inr (Some (before, owner, repo)) \<Rightarrow>
          (case llm_downgrade llm (readme_text_of gh owner repo token) (vr_status before) of
             Inl e \<Rightarrow> Inl e
           | Inr status \<Rightarrow> Inr (before\<lparr>vr_status := status\<rparr>)))"

text \<open>
  The signed difference \<^verbatim>\<open>repo_dt - paper_dt\<close> in microseconds when the recency check
  computes one: both dates are given and not empty, both parse, and both are naive or both
  aware. In every other case the check does nothing.
\<close>

definition date_gap :: "pylib \<Rightarrow> string option \<Rightarrow> string option \<Rightarrow> int option" where
  "date_gap py paper_date last_commit =
     (case (paper_date, last_commit) of
        (Some pd, Some lc) \<Rightarrow>
          if pd \<noteq> [] \<and> lc \<noteq> [] then
            (case fromisoformat py (replace_Z pd) of
               None \<Rightarrow> None
             | Some paper_dt \<Rightarrow>
                 (case fromisoformat py (replace_Z lc) of
                    None \<Rightarrow> None
                  | Some repo_dt \<Rightarrow>
                      (case dt_sub repo_dt paper_dt of Inl e \<Rightarrow> None | Inr delta \<Rightarrow> Some delta)))
          else None
      | _ \<Rightarrow> None)"

lemma recency_downgrade_gap:
  "recency_downgrade py paper_date last_commit status =
     (case date_gap py paper_date last_commit of
        None \<Rightarrow> status
      | Some delta \<Rightarrow> if abs (td_days delta) > 180 then Placeholder else status)"
  by (simp add: recency_downgrade_def date_gap_def split: option.splits sum.splits)

lemma td_days_within: "abs delta \<le> 180 * day_usec \<Longrightarrow> abs (td_days delta) \<le> 180"
  unfolding td_days_def day_usec_def by linarith

lemma td_days_apart: "abs delta \<ge> 181 * day_usec \<Longrightarrow> abs (td_days delta) > 180"
  unfolding td_days_def day_usec_def by linarith

lemma scan_calls_first:
  "list_all (\<lambda>p. judges_placeholder p = Inr False) pre \<Longrightarrow> judges_placeholder r = Inr True \<Longrightarrow>
   scan_calls (pre @ r # post) = Inr True"
  by (induction pre) simp_all

lemma llm_downgrade_cases:
  "llm_downgrade llm readme_text status = Inr s \<Longrightarrow> s = Placeholder \<or> s = status"
  by (auto simp: llm_downgrade_def split: sum.splits if_splits)

text \<open>
  Claim C8. Whatever verdict \<^verbatim>\<open>verify_repo\<close> returns, its status is
  \<^verbatim>\<open>Placeholder\<close> or the status computed before the language-model step, so a
  \<^verbatim>\<open>Verified\<close> result was \<^verbatim>\<open>Verified\<close> before the step and the \<^verbatim>\<open>None\<close>
  verdict is returned without the step; and when the loop over the calls reaches an element
  whose \<^verbatim>\<open>result.placeholder\<close> is true, the status returned is \<^verbatim>\<open>Placeholder\<close>,
  whatever it was before.
\<close>

theorem llm_step_never_upgrades:
  "(\<forall>r. verify_repo py gh url token llm paper_date = Inr r \<longrightarrow>
      (case repo_checks py gh url token paper_date of
         Inl e \<Rightarrow> False
       | Inr None \<Rightarrow> r = none_verdict
       | Inr (Some (before, owner, repo)) \<Rightarrow>
           (vr_status r = Placeholder \<or> vr_status r = vr_status before)
           \<and> (vr_status r = Verified \<longrightarrow> vr_status before = Verified)))
   \<and> (\<forall>before owner repo run_tool_plan result pre r post.
        repo_checks py gh url token paper_date = Inr (Some (before, owner, repo)) \<longrightarrow>
        llm = Some run_tool_plan \<longrightarrow>
        readme_text_of gh owner repo token \<noteq> [] \<longrightarrow>
        run_tool_plan (readme_text_of gh owner repo token) = Inr result \<longrightarrow>
        iterate (calls_of result) = Inr (pre @ r # post) \<longrightarrow>
        list_all (\<lambda>p. judges_placeholder p = Inr False) pre \<longrightarrow>
        judges_placeholder r = Inr True \<longrightarrow>
        verify_repo py gh url token llm paper_date = Inr (before\<lparr>vr_status := Placeholder\<rparr>))"
proof (intro conjI allI impI)
  fix r
  assume ret: "verify_repo py gh url token llm paper_date = Inr r"
  show "case repo_checks py gh url token paper_date of
         Inl e \<Rightarrow> False
       | Inr None \<Rightarrow> r = none_verdict
       | Inr (Some (before, owner, repo)) \<Rightarrow>
           (vr_status r = Placeholder \<or> vr_status r = vr_status before)
           \<and> (vr_status r = Verified \<longrightarrow> vr_status before = Verified)"
  proof (cases "repo_checks py gh url token paper_date")
    case (Inl e)
    with ret show ?thesis by (simp add: verify_repo_def)
  next
    case (Inr checked)
    show ?thesis
    proof (cases checked)
      case None
      with Inr ret show ?thesis by (simp add: verify_repo_def)
    next
      case (Some triple)
      obtain before owner repo where triple: "triple = (before, owner, repo)"
        by (cases triple) auto
      from ret Inr Some triple obtain s where
        s: "llm_downgrade llm (readme_text_of gh owner repo token) (vr_status before) = Inr s"
        and r: "r = before\<lparr>vr_status := s\<rparr>"
        by (auto simp: verify_repo_def split: sum.splits)
      from llm_downgrade_cases [OF s] r Inr Some triple show ?thesis by auto
    qed
  qed
next
  fix before owner repo run_tool_plan result pre r post
  assume checks: "repo_checks py gh url token paper_date = Inr (Some (before, owner, repo))"
    and llm: "llm = Some run_tool_plan"
    and readme: "readme_text_of gh owner repo token \<noteq> []"
    and plan: "run_tool_plan (readme_text_of gh owner repo token) = Inr result"
    and calls: "iterate (calls_of result) = Inr (pre @ r # post)"
    and pre: "list_all (\<lambda>p. judges_placeholder p = Inr False) pre"
    and yes: "judges_placeholder r = Inr True"
  have "llm_flags llm (readme_text_of gh owner repo token) = Inr True"
    using llm readme plan calls scan_calls_first [OF pre yes]
    by (simp add: llm_flags_def)
  then show "verify_repo py gh url token llm paper_date = Inr (before\<lparr>vr_status := Placeholder\<rparr>)"
    using checks by (simp add: verify_repo_def llm_downgrade_def)
qed

text \<open>
  Claim C2, as amended. For a URL that names an owner and a repository: when the metadata
  request answers with a status other than 200 the verdict is \<^verbatim>\<open>None\<close> with both
  flags false and no commit date, whatever the other requests would answer. When the
  metadata, commit and listing requests return and the language-model step ends, a verdict
  is returned with \<^verbatim>\<open>has_readme\<close> = (size > 0) and \<^verbatim>\<open>has_code\<close> = (the root listing
  has a file with a recognized extension); its status is \<^verbatim>\<open>Placeholder\<close> when
  \<^verbatim>\<open>has_code\<close> is false; \<^verbatim>\<open>Verified\<close> when both flags are true, the recency check
  finds the two dates at most 180 days apart and the language-model step does not flag the
  readme; and \<^verbatim>\<open>Placeholder\<close> when the recency check finds the two dates at least 181
  days apart.
\<close>

theorem verify_repo_verdicts:
  assumes url: "parse_repo_url url = Some (owner, repo)"
  shows
  "(fetch_repo_metadata gh owner repo token = Inr None \<longrightarrow>
      verify_repo py gh url token llm paper_date = Inr none_verdict)
   \<and> (\<forall>meta commit_date listing flagged.
        fetch_repo_metadata gh owner repo token = Inr (Some meta) \<longrightarrow>
        fetch_latest_commit_date gh owner repo token = Inr commit_date \<longrightarrow>
        get_contents gh owner repo token = Inr listing \<longrightarrow>
        llm_flags llm (readme_text_of gh owner repo token) = Inr flagged \<longrightarrow>
        (\<exists>r. verify_repo py gh url token llm paper_date = Inr r
           \<and> vr_has_readme r = (rm_size meta > 0)
           \<and> vr_has_code r = (case listing of None \<Rightarrow> False
                               | Some names \<Rightarrow> has_source_file (str_lower py) names)
           \<and> vr_last_commit r = py_or commit_date (rm_pushed_at meta)
           \<and> (\<not> vr_has_code r \<longrightarrow> vr_status r = Placeholder)
           \<and> (vr_has_code r \<and> vr_has_readme r \<and> \<not> flagged
                \<and> (\<exists>delta. date_gap py paper_date (vr_last_commit r) = Some delta
                           \<and> abs delta \<le> 180 * day_usec)
                \<longrightarrow> vr_status r = Verified)
           \<and> ((\<exists>delta. date_gap py paper_date (vr_last_commit r) = Some delta
                           \<and> abs delta \<ge> 181 * day_usec)
                \<longrightarrow> vr_status r = Placeholder)))"
proof (intro conjI allI impI)
  assume "fetch_repo_metadata gh owner repo token = Inr None"
  then show "verify_repo py gh url token llm paper_date = Inr none_verdict"
    using url by (simp add: verify_repo_def repo_checks_def)
next
  fix meta commit_date listing flagged
  assume meta: "fetch_repo_metadata gh owner repo token = Inr (Some meta)"
    and commit: "fetch_latest_commit_date gh owner repo token = Inr commit_date"
    and listing: "get_contents gh owner repo token = Inr listing"
    and flags: "llm_flags llm (readme_text_of gh owner repo token) = Inr flagged"
  define has_code where
    "has_code = (case listing of None \<Rightarrow> False | Some names \<Rightarrow> has_source_file (str_lower py) names)"
  define last_commit where "last_commit = py_or commit_date (rm_pushed_at meta)"
  define base where "base = (if has_code \<and> rm_size meta > 0 then Verified else Placeholder)"
  define before where
    "before = \<lparr>vr_status = recency_downgrade py paper_date last_commit base,
               vr_has_readme = rm_size meta > 0, vr_has_code = has_code,
               vr_last_commit = last_commit\<rparr>"
  define final where "final = (if flagged then Placeholder else vr_status before)"
  have code: "check_code_files (str_lower py) gh owner repo token = Inr has_code"
    using listing by (simp add: check_code_files_def has_code_def split: option.splits)
  have checks: "repo_checks py gh url token paper_date = Inr (Some (before, owner, repo))"
    using url meta commit code
    by (simp add: repo_checks_def Let_def before_def base_def last_commit_def)
  have ret: "verify_repo py gh url token llm paper_date = Inr (before\<lparr>vr_status := final\<rparr>)"
    using checks flags by (simp add: verify_repo_def llm_downgrade_def final_def)
  have no_code: "final = Placeholder" if "\<not> has_code"
    using that
    by (simp add: final_def before_def base_def recency_downgrade_gap split: option.splits)
  have verified: "final = Verified"
    if "has_code" "rm_size meta > 0" "\<not> flagged"
       "date_gap py paper_date last_commit = Some delta" "abs delta \<le> 180 * day_usec" for delta
    using that td_days_within [OF that(5)]
    by (simp add: final_def before_def base_def recency_downgrade_gap)
  have apart: "final = Placeholder"
    if "date_gap py paper_date last_commit = Some delta" "abs delta \<ge> 181 * day_usec" for delta
    using that td_days_apart [OF that(2)]
    by (simp add: final_def before_def recency_downgrade_gap)
  show "\<exists>r. verify_repo py gh url token llm paper_date = Inr r
           \<and> vr_has_readme r = (rm_size meta > 0)
           \<and> vr_has_code r = (case listing of None \<Rightarrow> False
                               | Some names \<Rightarrow> has_source_file (str_lower py) names)
           \<and> vr_last_commit r = py_or commit_date (rm_pushed_at meta)
           \<and> (\<not> vr_has_code r \<longrightarrow> vr_status r = Placeholder)
           \<and> (vr_has_code r \<and> vr_has_readme r \<and> \<not> flagged
                \<and> (\<exists>delta. date_gap py paper_date (vr_last_commit r) = Some delta
                           \<and> abs delta \<le> 180 * day_usec)
                \<longrightarrow> vr_status r = Verified)
           \<and> ((\<exists>delta. date_gap py paper_date (vr_last_commit r) = Some delta
                           \<and> abs delta \<ge> 181 * day_usec)
                \<longrightarrow> vr_status r = Placeholder)"
  proof (intro exI [of _ "before\<lparr>vr_status := final\<rparr>"] conjI impI)
    show "verify_repo py gh url token llm paper_date = Inr (before\<lparr>vr_status := final\<rparr>)"
      by (rule ret)
  qed (use no_code verified apart in \<open>auto simp: before_def has_code_def [symmetric] last_commit_def [symmetric]\<close>)
qed

text \<open>
  A populated repository whose readme says that the code is coming soon, pushed on
  2024-02-01, for a paper of 2024-01-15; a collaborator whose summary reports the
  placeholder judgment; a repository that the API does not know.
\<close>

definition sample_repo :: github where
  "sample_repo =
     \<lparr>fetch_repo_metadata = (\<lambda>owner repo token. Inr (Some \<lparr>rm_size = 120, rm_pushed_at = Some ''2024-02-01T00:00:00Z''\<rparr>)),
      fetch_latest_commit_date = (\<lambda>owner repo token. Inr (Some ''2024-02-01T00:00:00Z'')),
      get_contents = (\<lambda>owner repo token. Inr (Some [''README.md'', ''Train.PY''])),
      fetch_readme = (\<lambda>owner repo token. Inr ''Code coming soon.'')\<rparr>"

definition missing_repo :: github where
  "missing_repo = sample_repo\<lparr>fetch_repo_metadata := (\<lambda>owner repo token. Inr None)\<rparr>"

definition says_placeholder :: llm_client where
  "says_placeholder text =
     Inr (JObj [(''calls'', JArr [JObj [(''tool'', JStr ''check_placeholder''),
                                        (''result'', JObj [(''placeholder'', JBool True)])]])])"

definition sample_url :: string where
  "sample_url = ''https://github.com/acme/model''"

lemmas verifier_defs =
  verify_repo_def repo_checks_def parse_repo_url_def py_split_def rstrip_slash_def
  check_code_files_def has_source_file_def allowed_ext_def endswith_def py_or_def
  recency_downgrade_def dt_sub_def dt_micro_def td_days_def day_usec_def
  readme_text_of_def llm_downgrade_def llm_flags_def calls_of_def get_or_null_def dict_get_def
  iterate_def judges_placeholder_def none_verdict_def
  sample_repo_def missing_repo_def says_placeholder_def sample_url_def
  ascii_lower_def parse_hms_def parse_offset_def

lemma sample_url_parts: "parse_repo_url sample_url = Some (''acme'', ''model'')"
  by (simp add: parse_repo_url_def py_split_def rstrip_slash_def sample_url_def)

lemma sample_gap:
  "date_gap (example_py 0) (Some ''2024-01-15T00:00:00Z'') (Some ''2024-02-01T00:00:00Z'') =
     Some (17 * day_usec)"
  by (simp add: date_gap_def example_defs verifier_defs)

theorem verify_repo_verdicts_witness:
  "parse_repo_url sample_url = Some (''acme'', ''model'')
   \<and> verify_repo (example_py 0) missing_repo sample_url None None (Some ''2024-01-15T00:00:00Z'') =
       Inr none_verdict
   \<and> verify_repo (example_py 0) sample_repo sample_url None None (Some ''2024-01-15T00:00:00Z'') =
       Inr \<lparr>vr_status = Verified, vr_has_readme = True, vr_has_code = True,
            vr_last_commit = Some ''2024-02-01T00:00:00Z''\<rparr>"
proof -
  have missing: "fetch_repo_metadata missing_repo ''acme'' ''model'' None = Inr None"
    by (simp add: missing_repo_def)
  have meta: "fetch_repo_metadata sample_repo ''acme'' ''model'' None =
      Inr (Some \<lparr>rm_size = 120, rm_pushed_at = Some ''2024-02-01T00:00:00Z''\<rparr>)"
    and commit: "fetch_latest_commit_date sample_repo ''acme'' ''model'' None =
      Inr (Some ''2024-02-01T00:00:00Z'')"
    and listing: "get_contents sample_repo ''acme'' ''model'' None =
      Inr (Some [''README.md'', ''Train.PY''])"
    and quiet: "llm_flags None (readme_text_of sample_repo ''acme'' ''model'' None) = Inr False"
    by (simp_all add: sample_repo_def llm_flags_def)
  have code: "has_source_file (str_lower (example_py 0)) [''README.md'', ''Train.PY'']"
    by (simp add: example_py_def has_source_file_def allowed_ext_def endswith_def ascii_lower_def)
  from verify_repo_verdicts [OF sample_url_parts, of missing_repo None "example_py 0" None
         "Some ''2024-01-15T00:00:00Z''"] missing
  have first: "verify_repo (example_py 0) missing_repo sample_url None None
                 (Some ''2024-01-15T00:00:00Z'') = Inr none_verdict"
    by simp
  from verify_repo_verdicts [OF sample_url_parts, of sample_repo None "example_py 0" None
         "Some ''2024-01-15T00:00:00Z''"]
  have "\<exists>r. verify_repo (example_py 0) sample_repo sample_url None None
                       (Some ''2024-01-15T00:00:00Z'') = Inr r
           \<and> vr_has_readme r = (rm_size \<lparr>rm_size = 120, rm_pushed_at = Some ''2024-02-01T00:00:00Z''\<rparr> > 0)
           \<and> vr_has_code r = (case Some [''README.md'', ''Train.PY''] of None \<Rightarrow> False
                               | Some names \<Rightarrow> has_source_file (str_lower (example_py 0)) names)
           \<and> vr_last_commit r = py_or (Some ''2024-02-01T00:00:00Z'')
                                 (rm_pushed_at \<lparr>rm_size = 120, rm_pushed_at = Some ''2024-02-01T00:00:00Z''\<rparr>)
           \<and> (\<not> vr_has_code r \<longrightarrow> vr_status r = Placeholder)
           \<and> (vr_has_code r \<and> vr_has_readme r \<and> \<not> False
                \<and> (\<exists>delta. date_gap (example_py 0) (Some ''2024-01-15T00:00:00Z'') (vr_last_commit r) = Some delta
                           \<and> abs delta \<le> 180 * day_usec)
                \<longrightarrow> vr_status r = Verified)
           \<and> ((\<exists>delta. date_gap (example_py 0) (Some ''2024-01-15T00:00:00Z'') (vr_last_commit r) = Some delta
                           \<and> abs delta \<ge> 181 * day_usec)
                \<longrightarrow> vr_status r = Placeholder)"
    using meta commit listing quiet by blast
  then obtain r where r: "verify_repo (example_py 0) sample_repo sample_url None None
                       (Some ''2024-01-15T00:00:00Z'') = Inr r"
    and readme0: "vr_has_readme r = (rm_size \<lparr>rm_size = 120, rm_pushed_at = Some ''2024-02-01T00:00:00Z''\<rparr> > 0)"
    and has0: "vr_has_code r = (case Some [''README.md'', ''Train.PY''] of None \<Rightarrow> False
                               | Some names \<Rightarrow> has_source_file (str_lower (example_py 0)) names)"
    and last0: "vr_last_commit r = py_or (Some ''2024-02-01T00:00:00Z'')
                                 (rm_pushed_at \<lparr>rm_size = 120, rm_pushed_at = Some ''2024-02-01T00:00:00Z''\<rparr>)"
    and verified: "vr_has_code r \<and> vr_has_readme r \<and> \<not> False
                \<and> (\<exists>delta. date_gap (example_py 0) (Some ''2024-01-15T00:00:00Z'') (vr_last_commit r) = Some delta
                           \<and> abs delta \<le> 180 * day_usec)
                \<longrightarrow> vr_status r = Verified"
    by blast
  from readme0 have readme: "vr_has_readme r" by simp
  from has0 code have has: "vr_has_code r" by simp
  from last0 have last: "vr_last_commit r = Some ''2024-02-01T00:00:00Z''" by (simp add: py_or_def)
  from verified readme has last sample_gap have "vr_status r = Verified"
    by (simp add: day_usec_def)
  with readme has last have "r = \<lparr>vr_status = Verified, vr_has_readme = True, vr_has_code = True,
            vr_last_commit = Some ''2024-02-01T00:00:00Z''\<rparr>"
    by (cases r) simp
  with r first sample_url_parts show ?thesis by simp
qed

text \<open>
  The claim as stated fails: the repository has a recognized extension, a non-zero size and
  a last commit 17 days from the paper date, and the verdict is \<^verbatim>\<open>Placeholder\<close>, because
  the language-model step runs after the checks and flags the readme.
\<close>

theorem verify_repo_llm_overrides_verified:
  "has_source_file ascii_lower [''README.md'', ''Train.PY'']
   \<and> date_gap (example_py 0) (Some ''2024-01-15T00:00:00Z'') (Some ''2024-02-01T00:00:00Z'') =
       Some (17 * day_usec)
   \<and> verify_repo (example_py 0) sample_repo sample_url None (Some says_placeholder)
         (Some ''2024-01-15T00:00:00Z'') =
       Inr \<lparr>vr_status = Placeholder, vr_has_readme = True, vr_has_code = True,
            vr_last_commit = Some ''2024-02-01T00:00:00Z''\<rparr>"
  by (simp add: sample_gap) (simp add: example_defs verifier_defs)

text \<open>
  What the amended claim leaves out. A paper date without an offset (the
  \<^verbatim>\<open>created_at\<close> column that \<^verbatim>\<open>process_conference\<close> passes is one) and a commit date
  with \<^verbatim>\<open>Z\<close> cannot be subtracted; the TypeError is swallowed and a repository whose
  last commit is 365 days from the paper date stays \<^verbatim>\<open>Verified\<close>. And a commit 180 days
  and 12 hours after the paper date is not downgraded, while one 180 days and 12 hours
  before it is: \<^verbatim>\<open>.days\<close> is a floor.
\<close>

lemma recency_check_skipped_on_mixed_dates:
  "verify_repo (example_py 0)
     (sample_repo\<lparr>fetch_latest_commit_date := (\<lambda>owner repo token. Inr (Some ''2024-12-31T00:00:00Z''))\<rparr>)
     sample_url None None (Some ''2024-01-01 00:00:00'') =
   Inr \<lparr>vr_status = Verified, vr_has_readme = True, vr_has_code = True,
        vr_last_commit = Some ''2024-12-31T00:00:00Z''\<rparr>"
  by (simp add: example_defs verifier_defs)

lemma recency_check_rounds_down:
  "recency_downgrade (example_py 0) (Some ''2024-01-01T00:00:00Z'') (Some ''2024-06-29T12:00:00Z'') Verified
     = Verified
   \<and> recency_downgrade (example_py 0) (Some ''2024-06-29T12:00:00Z'') (Some ''2024-01-01T00:00:00Z'') Verified
     = Placeholder"
  by (simp add: example_defs verifier_defs)

theorem llm_step_never_upgrades_witness:
  "repo_checks (example_py 0) sample_repo sample_url None (Some ''2024-01-15T00:00:00Z'') =
     Inr (Some (\<lparr>vr_status = Verified, vr_has_readme = True, vr_has_code = True,
                  vr_last_commit = Some ''2024-02-01T00:00:00Z''\<rparr>, ''acme'', ''model''))
   \<and> judges_placeholder (JObj [(''tool'', JStr ''check_placeholder''),
                                (''result'', JObj [(''placeholder'', JBool True)])]) = Inr True
   \<and> verify_repo (example_py 0) sample_repo sample_url None (Some says_placeholder)
         (Some ''2024-01-15T00:00:00Z'') =
       Inr \<lparr>vr_status = Placeholder, vr_has_readme = True, vr_has_code = True,
            vr_last_commit = Some ''2024-02-01T00:00:00Z''\<rparr>"
proof -
  let ?call = "JObj [(''tool'', JStr ''check_placeholder''),
                     (''result'', JObj [(''placeholder'', JBool True)])]"
  have checks: "repo_checks (example_py 0) sample_repo sample_url None (Some ''2024-01-15T00:00:00Z'') =
     Inr (Some (\<lparr>vr_status = Verified, vr_has_readme = True, vr_has_code = True,
                  vr_last_commit = Some ''2024-02-01T00:00:00Z''\<rparr>, ''acme'', ''model''))"
    by (simp add: example_defs verifier_defs)
  have readme: "readme_text_of sample_repo ''acme'' ''model'' None \<noteq> []"
    by (simp add: readme_text_of_def sample_repo_def)
  have plan: "says_placeholder (readme_text_of sample_repo ''acme'' ''model'' None) =
                Inr (JObj [(''calls'', JArr [?call])])"
    by (simp add: says_placeholder_def)
  have calls: "iterate (calls_of (JObj [(''calls'', JArr [?call])])) = Inr ([] @ ?call # [])"
    by (simp add: iterate_def calls_of_def get_or_null_def dict_get_def)
  have yes: "judges_placeholder ?call = Inr True"
    by (simp add: judges_placeholder_def get_or_null_def dict_get_def)
  have pre: "list_all (\<lambda>p. judges_placeholder p = Inr False) []"
    by simp
  from llm_step_never_upgrades
         [of "example_py 0" sample_repo sample_url None "Some says_placeholder"
             "Some ''2024-01-15T00:00:00Z''"]
       checks readme plan calls yes pre
  have "verify_repo (example_py 0) sample_repo sample_url None (Some says_placeholder)
          (Some ''2024-01-15T00:00:00Z'') =
        Inr (\<lparr>vr_status = Verified, vr_has_readme = True, vr_has_code = True,
               vr_last_commit = Some ''2024-02-01T00:00:00Z''\<rparr>\<lparr>vr_status := Placeholder\<rparr>)"
    by blast
  with checks yes show ?thesis by simp
qed




subsection \<open>The summarization loop: \<^verbatim>\<open>Pipeline.process_conference\<close>, step 2\<close>
















































subsection \<open>Papers without an abstract\<close>















end
